theory Spec2Isabelle
  imports Main "HOL-Library.Multiset" "HOL-Library.Stream"
begin

section \<open>The character generator of \<^verbatim>\<open>player.py\<close>\<close>

text \<open>
  The module defines one class, \<^verbatim>\<open>Player\<close>, with three mutating methods
  (\<^verbatim>\<open>set_abilities\<close>, \<^verbatim>\<open>set_race\<close>, \<^verbatim>\<open>set_racial_traits\<close>) and the function
  \<^verbatim>\<open>setup_player\<close> that calls them in sequence. The methods read the global random
  generator and, in interactive mode, standard input; they write to standard output.
  All three are explicit here: a method takes the player and the world and returns
  how it ended, the player as the call left it, and the world as the call left it.
  A Python exception does not undo the assignments made before it, so a raised error
  comes back together with the state reached, not instead of it.
\<close>

subsection \<open>Data\<close>

datatype error = ValueError | EOFError | KeyError | IndexError

text \<open>
  A \<^verbatim>\<open>dict\<close> keeps its keys in insertion order and the code iterates over it, so
  the abilities are an association list in that order. Scores are Python integers.
\<close>

type_synonym 'v dict = "(string \<times> 'v) list"

record player =
  abilities :: "int dict"
  height :: int
  weight :: int
  classes :: "string list"
  languages :: "string list"
  race :: "string option"

text \<open>
  The attribute \<^verbatim>\<open>class_\<close> is the field \<open>classes\<close>: a name cannot end in an underscore
  here.
\<close>

text \<open>
  The world outside the object: the draws the random generator will deliver, the lines
  waiting on standard input, and the pieces of text written to standard output so far.
\<close>

record world =
  rng :: "nat stream"
  stdin :: "string list"
  stdout :: "string list"

subsection \<open>Dictionary operations\<close>

text \<open>\<^verbatim>\<open>d[k]\<close> as an expression: \<open>None\<close> stands for the \<^verbatim>\<open>KeyError\<close>.\<close>

fun dict_get :: "'v dict \<Rightarrow> string \<Rightarrow> 'v option" where
  "dict_get [] k = None"
| "dict_get ((k', v) # d) k = (if k' = k then Some v else dict_get d k)"

text \<open>\<^verbatim>\<open>d[k] = v\<close>: an existing key keeps its place, a new key goes to the end.\<close>

fun dict_set :: "'v dict \<Rightarrow> string \<Rightarrow> 'v \<Rightarrow> 'v dict" where
  "dict_set [] k v = [(k, v)]"
| "dict_set ((k', v') # d) k v = (if k' = k then (k, v) # d else (k', v') # dict_set d k v)"

definition dict_keys :: "'v dict \<Rightarrow> string list" where
  "dict_keys d = map fst d"

definition dict_values :: "'v dict \<Rightarrow> 'v list" where
  "dict_values d = map snd d"

subsection \<open>The constructor\<close>

definition Player :: player where
  "Player =
     \<lparr>abilities =
        [(''charisma'', 0), (''constitution'', 0), (''dexterity'', 0),
         (''intelligence'', 0), (''strength'', 0), (''wisdom'', 0)],
      height = 0, weight = 0, classes = [], languages = [], race = None\<rparr>"

subsection \<open>The standard library's \<^verbatim>\<open>random\<close> module\<close>

text \<open>
  The generator is a stream of natural numbers, one consumed per draw;
  \<^verbatim>\<open>_randbelow(n)\<close> reduces the draw below \<open>n\<close>, so every value below \<open>n\<close> can come
  out and no other. \<^verbatim>\<open>randint(a, b)\<close> is \<^verbatim>\<open>a + _randbelow(b - a + 1)\<close>, \<^verbatim>\<open>choice(seq)\<close> is
  \<^verbatim>\<open>seq[_randbelow(len(seq))]\<close> and raises \<^verbatim>\<open>IndexError\<close> on an empty sequence, and
  \<^verbatim>\<open>shuffle(x)\<close> swaps \<^verbatim>\<open>x[i]\<close> with \<^verbatim>\<open>x[_randbelow(i + 1)]\<close> for \<open>i\<close> from
  \<^verbatim>\<open>len(x) - 1\<close> down to 1. The module is only ever called as \<^verbatim>\<open>randint(1, 6)\<close>, on
  the two-element list of races, and on the list of six scores.
\<close>

definition randbelow :: "nat \<Rightarrow> nat stream \<Rightarrow> nat \<times> nat stream" where
  "randbelow n g = (shd g mod n, stl g)"

definition randint :: "int \<Rightarrow> int \<Rightarrow> nat stream \<Rightarrow> int \<times> nat stream" where
  "randint a b g = (case randbelow (nat (b - a + 1)) g of (r, g') \<Rightarrow> (a + int r, g'))"

definition choice :: "'a list \<Rightarrow> nat stream \<Rightarrow> (error + 'a) \<times> nat stream" where
  "choice seq g =
     (if seq = [] then (Inl IndexError, g)
      else (case randbelow (length seq) g of (j, g') \<Rightarrow> (Inr (seq ! j), g')))"

fun shuffle_from :: "nat \<Rightarrow> 'a list \<Rightarrow> nat stream \<Rightarrow> 'a list \<times> nat stream" where
  "shuffle_from 0 x g = (x, g)"
| "shuffle_from (Suc i) x g =
     (case randbelow (Suc i + 1) g of
        (j, g') \<Rightarrow> shuffle_from i (x[Suc i := x ! j, j := x ! Suc i]) g')"

definition shuffle :: "'a list \<Rightarrow> nat stream \<Rightarrow> 'a list \<times> nat stream" where
  "shuffle x g = shuffle_from (length x - 1) x g"

subsection \<open>Generating a score\<close>

text \<open>\<^verbatim>\<open>[random.randint(1, 6) for _ in range(n)]\<close>\<close>

fun roll_dice :: "nat \<Rightarrow> nat stream \<Rightarrow> int list \<times> nat stream" where
  "roll_dice 0 g = ([], g)"
| "roll_dice (Suc n) g =
     (case randint 1 6 g of
        (v, g1) \<Rightarrow> (case roll_dice n g1 of (vs, g2) \<Rightarrow> (v # vs, g2)))"

text \<open>
  The pass over \<^verbatim>\<open>enumerate(rolls)\<close>: a die showing 1 is replaced by a fresh draw, which
  is not looked at again.
\<close>

fun reroll_ones :: "int list \<Rightarrow> nat stream \<Rightarrow> int list \<times> nat stream" where
  "reroll_ones [] g = ([], g)"
| "reroll_ones (v # vs) g =
     (if v = 1
      then (case randint 1 6 g of
              (v', g1) \<Rightarrow> (case reroll_ones vs g1 of (vs', g2) \<Rightarrow> (v' # vs', g2)))
      else (case reroll_ones vs g of (vs', g1) \<Rightarrow> (v # vs', g1)))"

definition generate_score :: "nat stream \<Rightarrow> int \<times> nat stream" where
  "generate_score g =
     (case roll_dice 4 g of
        (rolls, g1) \<Rightarrow>
          (case reroll_ones rolls g1 of
             (rolls', g2) \<Rightarrow> (sum_list (drop 1 (sort rolls')), g2)))"

text \<open>\<^verbatim>\<open>[generate_score() for _ in range(n)]\<close>\<close>

fun generate_scores :: "nat \<Rightarrow> nat stream \<Rightarrow> int list \<times> nat stream" where
  "generate_scores 0 g = ([], g)"
| "generate_scores (Suc n) g =
     (case generate_score g of
        (s, g1) \<Rightarrow> (case generate_scores n g1 of (ss, g2) \<Rightarrow> (s # ss, g2)))"

subsection \<open>Built-ins: \<^verbatim>\<open>str\<close>, \<^verbatim>\<open>int\<close>, \<^verbatim>\<open>print\<close>, \<^verbatim>\<open>input\<close>\<close>

fun str_nat :: "nat \<Rightarrow> string" where
  "str_nat n =
     (if n < 10 then [''0123456789'' ! n]
      else str_nat (n div 10) @ [''0123456789'' ! (n mod 10)])"

declare str_nat.simps [simp del]

definition str_int :: "int \<Rightarrow> string" where
  "str_int i = (if i < 0 then ''-'' @ str_nat (nat (- i)) else str_nat (nat i))"

fun join :: "string \<Rightarrow> string list \<Rightarrow> string" where
  "join sep [] = []"
| "join sep [x] = x"
| "join sep (x # y # ys) = x @ sep @ join sep (y # ys)"

text \<open>What an f-string shows for a list of integers: \<^verbatim>\<open>[10, 12, 14]\<close>.\<close>

definition str_int_list :: "int list \<Rightarrow> string" where
  "str_int_list xs = ''['' @ join '', '' (map str_int xs) @ '']''"

text \<open>
  What an f-string shows for a list of strings that hold no quote, backslash or
  unprintable character, as the names of the races do: \<^verbatim>\<open>['High Elf', 'Human']\<close>.
\<close>

definition str_str_list :: "string list \<Rightarrow> string" where
  "str_str_list xs = ''['' @ join '', '' (map (\<lambda>x. [CHR 0x27] @ x @ [CHR 0x27]) xs) @ '']''"

text \<open>
  \<^verbatim>\<open>int(s)\<close> is not modelled: which strings it accepts depends on the interpreter (its
  tables of Unicode blanks and digits, its limit on the number of digits). The functions
  that call it take it as the parameter \<open>to_int\<close>, where \<open>to_int s = None\<close> stands for
  the \<^verbatim>\<open>ValueError\<close>, and every property below holds whatever \<open>to_int\<close> is.
\<close>

text \<open>\<^verbatim>\<open>print(s)\<close> writes the text and a line feed.\<close>

definition print :: "string \<Rightarrow> world \<Rightarrow> world" where
  "print s w = w\<lparr>stdout := stdout w @ [s @ [CHR 0x0A]]\<rparr>"

text \<open>
  \<^verbatim>\<open>input(prompt)\<close> writes the prompt and reads one line; with no line left it raises
  \<^verbatim>\<open>EOFError\<close>.
\<close>

definition input :: "string \<Rightarrow> world \<Rightarrow> (error + string) \<times> world" where
  "input prompt w =
     (case stdin w of
        [] \<Rightarrow> (Inl EOFError, w\<lparr>stdout := stdout w @ [prompt]\<rparr>)
      | line # rest \<Rightarrow> (Inr line, w\<lparr>stdin := rest, stdout := stdout w @ [prompt]\<rparr>))"

text \<open>The truth value of \<^verbatim>\<open>self.race\<close>: \<^verbatim>\<open>None\<close> and the empty string are false.\<close>

definition truthy :: "string option \<Rightarrow> bool" where
  "truthy r = (case r of None \<Rightarrow> False | Some s \<Rightarrow> s \<noteq> [])"

subsection \<open>\<^verbatim>\<open>set_abilities\<close>\<close>

text \<open>
  \<^verbatim>\<open>for ability, score in zip(self.abilities, scores): self.abilities[ability] = score\<close>
\<close>

fun assign_scores :: "(string \<times> int) list \<Rightarrow> int dict \<Rightarrow> int dict" where
  "assign_scores [] d = d"
| "assign_scores ((ability, score) # rest) d = assign_scores rest (dict_set d ability score)"

text \<open>
  One round of asking: the line with the scores left to choose from is printed and the
  answer is read.
\<close>

definition ask_score :: "string \<Rightarrow> int list \<Rightarrow> world \<Rightarrow> (error + string) \<times> world" where
  "ask_score ability scores w =
     input (''What should should we assign to '' @ ability @ ''? '')
       (print (''Scores to choose from: '' @ str_int_list scores) w)"

text \<open>
  The \<^verbatim>\<open>while not self.abilities[ability]\<close> loop for one ability. It changes the
  player, the list of scores still to choose from, and the world.
\<close>

function choose_score ::
  "(string \<Rightarrow> int option) \<Rightarrow> string \<Rightarrow> player \<Rightarrow> int list \<Rightarrow> world \<Rightarrow>
     error option \<times> player \<times> int list \<times> world"
where
  "choose_score to_int ability p scores w =
     (case dict_get (abilities p) ability of
        None \<Rightarrow> (Some KeyError, p, scores, w)
      | Some v \<Rightarrow>
          if v \<noteq> 0 then (None, p, scores, w)
          else
            (case ask_score ability scores w of
               (Inl e, w1) \<Rightarrow> (Some e, p, scores, w1)
             | (Inr line, w1) \<Rightarrow>
                 (case to_int line of
                    None \<Rightarrow> (Some ValueError, p, scores, w1)
                  | Some score \<Rightarrow>
                      if score \<in> set scores
                      then choose_score to_int ability
                             (p\<lparr>abilities := dict_set (abilities p) ability score\<rparr>)
                             (remove1 score scores) w1
                      else choose_score to_int ability p scores (print ''Invalid choice!'' w1))))"
  by pat_completeness auto
termination
  by (relation "measure (\<lambda>(to_int, ability, p, scores, w). length (stdin w))")
     (auto simp: ask_score_def input_def print_def split: list.splits)

declare choose_score.simps [simp del]

text \<open>\<^verbatim>\<open>for ability in self.abilities: while ...\<close>\<close>

fun choose_scores ::
  "(string \<Rightarrow> int option) \<Rightarrow> string list \<Rightarrow> player \<Rightarrow> int list \<Rightarrow> world \<Rightarrow>
     error option \<times> player \<times> int list \<times> world"
where
  "choose_scores to_int [] p scores w = (None, p, scores, w)"
| "choose_scores to_int (ability # rest) p scores w =
     (case choose_score to_int ability p scores w of
        (Some e, p1, scores1, w1) \<Rightarrow> (Some e, p1, scores1, w1)
      | (None, p1, scores1, w1) \<Rightarrow> choose_scores to_int rest p1 scores1 w1)"

definition set_abilities ::
  "(string \<Rightarrow> int option) \<Rightarrow> bool \<Rightarrow> player \<Rightarrow> world \<Rightarrow> error option \<times> player \<times> world"
where
  "set_abilities to_int randomize p w =
     (case generate_scores 6 (rng w) of
        (scores, g1) \<Rightarrow>
          if randomize
          then (case shuffle scores g1 of
                  (scores', g2) \<Rightarrow>
                    (None,
                     p\<lparr>abilities :=
                         assign_scores (zip (dict_keys (abilities p)) scores') (abilities p)\<rparr>,
                     w\<lparr>rng := g2\<rparr>))
          else (case choose_scores to_int (dict_keys (abilities p)) p scores (w\<lparr>rng := g1\<rparr>) of
                  (r, p1, scores1, w1) \<Rightarrow> (r, p1, w1)))"

subsection \<open>\<^verbatim>\<open>set_race\<close>\<close>

definition races :: "string list" where
  "races = [''High Elf'', ''Human'']"

text \<open>One round of asking: the line with the races is printed and the answer is read.\<close>

definition ask_race :: "world \<Rightarrow> (error + string) \<times> world" where
  "ask_race w =
     input ''What race should we set? ''
       (print (''Races to choose from: '' @ str_str_list races) w)"

text \<open>The \<^verbatim>\<open>while not self.race\<close> loop.\<close>

function choose_race :: "player \<Rightarrow> world \<Rightarrow> error option \<times> player \<times> world" where
  "choose_race p w =
     (if truthy (race p) then (None, p, w)
      else
        (case ask_race w of
           (Inl e, w1) \<Rightarrow> (Some e, p, w1)
         | (Inr r, w1) \<Rightarrow>
             if r \<in> set races
             then choose_race (p\<lparr>race := Some r\<rparr>) w1
             else choose_race p (print ''Invalid choice!'' w1)))"
  by pat_completeness auto
termination
  by (relation "measure (\<lambda>(p, w). length (stdin w))")
     (auto simp: ask_race_def input_def print_def split: list.splits)

declare choose_race.simps [simp del]

definition set_race :: "bool \<Rightarrow> player \<Rightarrow> world \<Rightarrow> error option \<times> player \<times> world" where
  "set_race randomize p w =
     (if randomize
      then (case choice races (rng w) of
              (Inl e, g1) \<Rightarrow> (Some e, p, w\<lparr>rng := g1\<rparr>)
            | (Inr r, g1) \<Rightarrow> (None, p\<lparr>race := Some r\<rparr>, w\<lparr>rng := g1\<rparr>))
      else choose_race p w)"

subsection \<open>\<^verbatim>\<open>set_racial_traits\<close>\<close>

text \<open>
  \<^verbatim>\<open>self.abilities[k] += n\<close> reads the entry, which raises \<^verbatim>\<open>KeyError\<close> when the key
  is missing, and then writes it.
\<close>

definition add_to_ability :: "string \<Rightarrow> int \<Rightarrow> player \<Rightarrow> error + player" where
  "add_to_ability k n p =
     (case dict_get (abilities p) k of
        None \<Rightarrow> Inl KeyError
      | Some v \<Rightarrow> Inr (p\<lparr>abilities := dict_set (abilities p) k (v + n)\<rparr>))"

definition set_racial_traits :: "player \<Rightarrow> world \<Rightarrow> error option \<times> player \<times> world" where
  "set_racial_traits p w =
     (if list_ex (\<lambda>v. v = 0) (dict_values (abilities p))
      then (None, p, print ''Abilities are not set! Call set_abilities method first.'' w)
      else if \<not> truthy (race p)
      then (None, p, print ''Race is not set! Call set_race method first.'' w)
      else if race p = Some ''High Elf''
      then (case add_to_ability ''charisma'' 1 p of
              Inl e \<Rightarrow> (Some e, p, w)
            | Inr p1 \<Rightarrow>
                (case add_to_ability ''dexterity'' 2 p1 of
                   Inl e \<Rightarrow> (Some e, p1, w)
                 | Inr p2 \<Rightarrow> (None, p2, w)))
      else (None, p, w))"

subsection \<open>\<^verbatim>\<open>setup_player\<close>\<close>

text \<open>
  Both branches of the source make the same three calls, passing \<^verbatim>\<open>randomize\<close> on to
  the first two. The player is returned only when no call raised.
\<close>

definition setup_player ::
  "(string \<Rightarrow> int option) \<Rightarrow> bool \<Rightarrow> world \<Rightarrow> (error + player) \<times> world"
where
  "setup_player to_int randomize w =
     (case set_abilities to_int randomize Player w of
        (Some e, p1, w1) \<Rightarrow> (Inl e, w1)
      | (None, p1, w1) \<Rightarrow>
          (case set_race randomize p1 w1 of
             (Some e, p2, w2) \<Rightarrow> (Inl e, w2)
           | (None, p2, w2) \<Rightarrow>
               (case set_racial_traits p2 w2 of
                  (Some e, p3, w3) \<Rightarrow> (Inl e, w3)
                | (None, p3, w3) \<Rightarrow> (Inr p3, w3))))"

subsection \<open>Notions used in the statements\<close>

text \<open>A face of a six-sided die.\<close>

definition die_face :: "int \<Rightarrow> bool" where
  "die_face v = (1 \<le> v \<and> v \<le> 6)"

text \<open>The race is unset or one of the races of \<^verbatim>\<open>set_race\<close>.\<close>

definition race_ok :: "player \<Rightarrow> bool" where
  "race_ok p = (case race p of None \<Rightarrow> True | Some s \<Rightarrow> s \<in> set races)"

text \<open>
  No score is negative: a score is 0, for an ability not yet set, or it comes from the
  dice and the bonuses.
\<close>

definition scores_legal :: "player \<Rightarrow> bool" where
  "scores_legal p = list_all (\<lambda>v. 0 \<le> v) (dict_values (abilities p))"

section \<open>Properties\<close>

subsection \<open>Dice and scores\<close>

lemma randint_die: "die_face (fst (randint 1 6 g))"
  by (simp add: randint_def randbelow_def die_face_def)

lemma roll_dice_faces:
  "list_all die_face (fst (roll_dice n g)) \<and> length (fst (roll_dice n g)) = n"
proof (induction n arbitrary: g)
  case 0
  show ?case by simp
next
  case (Suc n)
  obtain v g1 where r: "randint 1 6 g = (v, g1)" by (cases "randint 1 6 g")
  obtain vs g2 where rs: "roll_dice n g1 = (vs, g2)" by (cases "roll_dice n g1")
  have "die_face v" using randint_die [of g] r by simp
  moreover have "list_all die_face vs \<and> length vs = n" using Suc.IH [of g1] rs by simp
  ultimately show ?case using r rs by simp
qed

lemma reroll_ones_faces:
  "list_all die_face vs \<Longrightarrow>
     list_all die_face (fst (reroll_ones vs g)) \<and> length (fst (reroll_ones vs g)) = length vs"
proof (induction vs arbitrary: g)
  case Nil
  show ?case by simp
next
  case (Cons v vs)
  show ?case
  proof (cases "v = 1")
    case True
    obtain v' g1 where r: "randint 1 6 g = (v', g1)" by (cases "randint 1 6 g")
    obtain vs' g2 where rs: "reroll_ones vs g1 = (vs', g2)" by (cases "reroll_ones vs g1")
    have "die_face v'" using randint_die [of g] r by simp
    moreover have "list_all die_face vs' \<and> length vs' = length vs"
      using Cons.IH [of g1] Cons.prems rs by simp
    ultimately show ?thesis using True r rs by simp
  next
    case False
    obtain vs' g1 where rs: "reroll_ones vs g = (vs', g1)" by (cases "reroll_ones vs g")
    have "list_all die_face vs' \<and> length vs' = length vs"
      using Cons.IH [of g] Cons.prems rs by simp
    then show ?thesis using False Cons.prems rs by simp
  qed
qed

lemma sum_list_faces:
  "list_all die_face vs \<Longrightarrow>
     int (length vs) \<le> sum_list vs \<and> sum_list vs \<le> 6 * int (length vs)"
  by (induction vs) (auto simp: die_face_def)

lemma generate_score_range: "3 \<le> fst (generate_score g) \<and> fst (generate_score g) \<le> 18"
proof -
  obtain rolls g1 where r: "roll_dice 4 g = (rolls, g1)" by (cases "roll_dice 4 g")
  obtain rolls' g2 where rr: "reroll_ones rolls g1 = (rolls', g2)"
    by (cases "reroll_ones rolls g1")
  have "list_all die_face rolls \<and> length rolls = 4"
    using roll_dice_faces [of 4 g] r by simp
  then have a: "list_all die_face rolls' \<and> length rolls' = 4"
    using reroll_ones_faces [of rolls g1] rr by simp
  then have "list_all die_face (sort rolls')"
    by (simp add: list_all_iff)
  then have "list_all die_face (drop 1 (sort rolls'))"
    by (auto simp: list_all_iff dest: in_set_dropD)
  moreover have "length (drop 1 (sort rolls')) = 3"
    using a by simp
  ultimately have "3 \<le> sum_list (drop 1 (sort rolls')) \<and> sum_list (drop 1 (sort rolls')) \<le> 18"
    using sum_list_faces [of "drop 1 (sort rolls')"] by simp
  then show ?thesis
    using r rr by (simp add: generate_score_def)
qed

lemma generate_scores_range:
  "length (fst (generate_scores n g)) = n \<and>
   list_all (\<lambda>s. 3 \<le> s \<and> s \<le> 18) (fst (generate_scores n g))"
proof (induction n arbitrary: g)
  case 0
  show ?case by simp
next
  case (Suc n)
  obtain s g1 where one: "generate_score g = (s, g1)" by (cases "generate_score g")
  obtain ss g2 where rest: "generate_scores n g1 = (ss, g2)" by (cases "generate_scores n g1")
  have "3 \<le> s \<and> s \<le> 18" using generate_score_range [of g] one by simp
  moreover have "length ss = n \<and> list_all (\<lambda>s. 3 \<le> s \<and> s \<le> 18) ss"
    using Suc.IH [of g1] rest by simp
  ultimately show ?case using one rest by simp
qed

lemma generate_scores_nonzero: "generate_scores n g = (scores, g1) \<Longrightarrow> 0 \<notin> set scores"
  using generate_scores_range [of n g] by (auto simp: list_all_iff)

lemma generate_scores_length: "generate_scores n g = (scores, g1) \<Longrightarrow> length scores = n"
  using generate_scores_range [of n g] by simp

text \<open>
  C1. Whatever the generator delivers, the score that \<^verbatim>\<open>generate_score\<close> returns (four
  dice, each die showing 1 rolled again once, the lowest dropped, the other three
  added) is at least 3 and at most 18; so is each of the six scores that
  \<^verbatim>\<open>set_abilities\<close> generates.
\<close>

theorem C1_generate_score_in_3_18:
  "3 \<le> fst (generate_score g) \<and> fst (generate_score g) \<le> 18 \<and>
   length (fst (generate_scores 6 g)) = 6 \<and>
   list_all (\<lambda>s. 3 \<le> s \<and> s \<le> 18) (fst (generate_scores 6 g))"
  using generate_score_range [of g] generate_scores_range [of 6 g] by simp

subsection \<open>Dictionaries\<close>

lemma dict_get_None_iff: "dict_get d k = None \<longleftrightarrow> k \<notin> set (dict_keys d)"
  by (induction d) (auto simp: dict_keys_def split: if_splits)

lemma dict_keys_dict_set:
  "dict_get d k = Some v' \<Longrightarrow> dict_keys (dict_set d k v) = dict_keys d"
  by (induction d) (auto simp: dict_keys_def split: if_splits)

lemma dict_get_dict_set:
  "dict_get (dict_set d k v) k' = (if k' = k then Some v else dict_get d k')"
  by (induction d) auto

subsection \<open>The loop for one ability\<close>

lemma ask_score_stdin:
  "ask_score ability scores w = (a, w1) \<Longrightarrow>
     (case a of Inl e \<Rightarrow> e = EOFError \<and> stdin w = [] \<and> stdin w1 = []
              | Inr line \<Rightarrow> stdin w = line # stdin w1) \<and> rng w1 = rng w"
  by (auto simp: ask_score_def input_def print_def split: list.splits)

lemma choose_score_missing:
  "dict_get (abilities p) ability = None \<Longrightarrow>
     choose_score to_int ability p scores w = (Some KeyError, p, scores, w)"
  by (subst choose_score.simps) simp

lemma choose_score_set:
  "dict_get (abilities p) ability = Some v \<Longrightarrow> v \<noteq> 0 \<Longrightarrow>
     choose_score to_int ability p scores w = (None, p, scores, w)"
  by (subst choose_score.simps) simp

lemma choose_score_eof:
  "dict_get (abilities p) ability = Some 0 \<Longrightarrow> ask_score ability scores w = (Inl e, w1) \<Longrightarrow>
     choose_score to_int ability p scores w = (Some e, p, scores, w1)"
  by (subst choose_score.simps) simp

lemma choose_score_malformed:
  "dict_get (abilities p) ability = Some 0 \<Longrightarrow> ask_score ability scores w = (Inr line, w1) \<Longrightarrow>
   to_int line = None \<Longrightarrow>
     choose_score to_int ability p scores w = (Some ValueError, p, scores, w1)"
  by (subst choose_score.simps) simp

lemma choose_score_valid:
  "dict_get (abilities p) ability = Some 0 \<Longrightarrow> ask_score ability scores w = (Inr line, w1) \<Longrightarrow>
   to_int line = Some score \<Longrightarrow> score \<in> set scores \<Longrightarrow>
     choose_score to_int ability p scores w =
       choose_score to_int ability (p\<lparr>abilities := dict_set (abilities p) ability score\<rparr>)
         (remove1 score scores) w1"
  by (subst choose_score.simps) simp

lemma choose_score_invalid:
  "dict_get (abilities p) ability = Some 0 \<Longrightarrow> ask_score ability scores w = (Inr line, w1) \<Longrightarrow>
   to_int line = Some score \<Longrightarrow> score \<notin> set scores \<Longrightarrow>
     choose_score to_int ability p scores w =
       choose_score to_int ability p scores (print ''Invalid choice!'' w1)"
  by (subst choose_score.simps) simp

text \<open>
  With no 0 among the scores, the loop for one ability either leaves the player and the
  scores as they are (and then it ends normally only if the ability was set already),
  or it ends normally after one assignment of a score taken from the list.
\<close>

lemma choose_score_result:
  "choose_score to_int ability p scores w = (r, p', scores', w') \<Longrightarrow> 0 \<notin> set scores \<Longrightarrow>
     rng w' = rng w \<and>
       (p' = p \<and> scores' = scores \<and>
          (r = None \<longrightarrow> (\<exists>v. dict_get (abilities p) ability = Some v \<and> v \<noteq> 0)) \<or>
        dict_get (abilities p) ability = Some 0 \<and> r = None \<and>
          (\<exists>s. s \<in> set scores \<and> p' = p\<lparr>abilities := dict_set (abilities p) ability s\<rparr> \<and>
               scores' = remove1 s scores))"
proof (induction to_int ability p scores w arbitrary: r p' scores' w' rule: choose_score.induct)
  case (1 to_int ability p scores w)
  note run = "1.prems"(1) and nz = "1.prems"(2)
  show ?case
  proof (cases "dict_get (abilities p) ability")
    case None
    with run show ?thesis by (auto simp: choose_score_missing)
  next
    case (Some v)
    show ?thesis
    proof (cases "v = 0")
      case False
      with Some run show ?thesis by (auto simp: choose_score_set)
    next
      case True
      with Some have z: "dict_get (abilities p) ability = Some 0" by simp
      obtain a w1 where ask: "ask_score ability scores w = (a, w1)"
        by (cases "ask_score ability scores w")
      have g1: "rng w1 = rng w" using ask_score_stdin [OF ask] by simp
      show ?thesis
      proof (cases a)
        case (Inl e)
        with z ask run g1 show ?thesis by (auto simp: choose_score_eof)
      next
        case (Inr line)
        note ask' = ask [unfolded Inr]
        show ?thesis
        proof (cases "to_int line")
          case None
          with z ask' run g1 show ?thesis by (auto simp: choose_score_malformed)
        next
          case (Some score)
          note sc = Some
          show ?thesis
          proof (cases "score \<in> set scores")
            case True
            let ?p1 = "p\<lparr>abilities := dict_set (abilities p) ability score\<rparr>"
            from True nz have "score \<noteq> 0" by auto
            moreover have "dict_get (abilities ?p1) ability = Some score"
              by (simp add: dict_get_dict_set)
            ultimately have "choose_score to_int ability ?p1 (remove1 score scores) w1 =
                (None, ?p1, remove1 score scores, w1)"
              by (simp add: choose_score_set)
            with choose_score_valid [where to_int = to_int, OF z ask' sc True] run
            have "r = None \<and> p' = ?p1 \<and> scores' = remove1 score scores \<and> w' = w1" by simp
            with z True g1 show ?thesis by auto
          next
            case False
            have "choose_score to_int ability p scores (print ''Invalid choice!'' w1) = (r, p', scores', w')"
              using choose_score_invalid [where to_int = to_int, OF z ask' sc False] run by simp
            with "1.IH"(2) [OF \<open>dict_get (abilities p) ability = Some v\<close> _ ask [symmetric] Inr sc False _ nz]
              True
            have "rng w' = rng (print ''Invalid choice!'' w1) \<and>
       (p' = p \<and> scores' = scores \<and>
          (r = None \<longrightarrow> (\<exists>v. dict_get (abilities p) ability = Some v \<and> v \<noteq> 0)) \<or>
        dict_get (abilities p) ability = Some 0 \<and> r = None \<and>
          (\<exists>s. s \<in> set scores \<and> p' = p\<lparr>abilities := dict_set (abilities p) ability s\<rparr> \<and>
               scores' = remove1 s scores))"
              by simp
            then show ?thesis using g1 by (simp add: print_def)
          qed
        qed
      qed
    qed
  qed
qed

lemma dict_get_in_values: "dict_get d k = Some v \<Longrightarrow> v \<in> set (dict_values d)"
  by (induction d) (auto simp: dict_values_def split: if_splits)

lemma choose_score_frame:
  assumes "choose_score to_int ability p scores w = (r, p', scores', w')" and "0 \<notin> set scores"
  shows "dict_keys (abilities p') = dict_keys (abilities p)"
    and "p'\<lparr>abilities := abilities p\<rparr> = p"
    and "rng w' = rng w"
    and "0 \<notin> set scores'"
    and "dict_get (abilities p) k = Some v \<Longrightarrow> v \<noteq> 0 \<Longrightarrow> dict_get (abilities p') k = Some v"
  using choose_score_result [OF assms] assms(2)
  by (auto simp: dict_keys_dict_set dict_get_dict_set dest: notin_set_remove1)

lemma choose_scores_frame:
  "choose_scores to_int ks p scores w = (r, p', scores', w') \<Longrightarrow> 0 \<notin> set scores \<Longrightarrow>
     dict_keys (abilities p') = dict_keys (abilities p) \<and>
     p'\<lparr>abilities := abilities p\<rparr> = p \<and> rng w' = rng w \<and> 0 \<notin> set scores'"
proof (induction ks arbitrary: p scores w)
  case Nil
  then show ?case by simp
next
  case (Cons k ks)
  obtain r1 p1 scores1 w1 where one: "choose_score to_int k p scores w = (r1, p1, scores1, w1)"
    by (cases "choose_score to_int k p scores w")
  note f = choose_score_frame [OF one Cons.prems(2)]
  show ?case
  proof (cases r1)
    case (Some e)
    with one Cons.prems(1) have "p' = p1 \<and> scores' = scores1 \<and> w' = w1" by simp
    with f show ?thesis by simp
  next
    case None
    with one Cons.prems(1) have "choose_scores to_int ks p1 scores1 w1 = (r, p', scores', w')" by simp
    from Cons.IH [OF this f(4)] f(1,2,3) show ?thesis
      by (metis player.cases_scheme player.update_convs(1))
  qed
qed

lemma choose_scores_keeps:
  "choose_scores to_int ks p scores w = (r, p', scores', w') \<Longrightarrow> 0 \<notin> set scores \<Longrightarrow>
   dict_get (abilities p) k = Some v \<Longrightarrow> v \<noteq> 0 \<Longrightarrow> dict_get (abilities p') k = Some v"
proof (induction ks arbitrary: p scores w)
  case Nil
  then show ?case by simp
next
  case (Cons a ks)
  obtain r1 p1 scores1 w1 where one: "choose_score to_int a p scores w = (r1, p1, scores1, w1)"
    by (cases "choose_score to_int a p scores w")
  note f = choose_score_frame [OF one Cons.prems(2)]
  have kept: "dict_get (abilities p1) k = Some v" using f(5) Cons.prems(3,4) by simp
  show ?case
  proof (cases r1)
    case (Some e)
    with one Cons.prems(1) have "p' = p1" by simp
    with kept show ?thesis by simp
  next
    case None
    with one Cons.prems(1) have "choose_scores to_int ks p1 scores1 w1 = (r, p', scores', w')" by simp
    from Cons.IH [OF this f(4) kept Cons.prems(4)] show ?thesis .
  qed
qed

lemma choose_scores_all_set:
  "list_all (\<lambda>k. case dict_get (abilities p) k of None \<Rightarrow> False | Some v \<Rightarrow> v \<noteq> 0) ks \<Longrightarrow>
     choose_scores to_int ks p scores w = (None, p, scores, w)"
  by (induction ks) (auto simp: choose_score_set split: option.splits)

lemma all_keys_set:
  "\<not> list_ex (\<lambda>v. v = 0) (dict_values d) \<Longrightarrow>
     list_all (\<lambda>k. case dict_get d k of None \<Rightarrow> False | Some v \<Rightarrow> v \<noteq> 0) (dict_keys d)"
proof -
  assume nz: "\<not> list_ex (\<lambda>v. v = 0) (dict_values d)"
  have "case dict_get d k of None \<Rightarrow> False | Some v \<Rightarrow> v \<noteq> 0" if "k \<in> set (dict_keys d)" for k
  proof (cases "dict_get d k")
    case None
    with that show ?thesis by (simp add: dict_get_None_iff)
  next
    case (Some v)
    from dict_get_in_values [OF this] nz have "v \<noteq> 0" by (auto simp: list_ex_iff)
    with Some show ?thesis by simp
  qed
  then show ?thesis by (simp add: list_all_iff)
qed

subsection \<open>Shuffling and assigning\<close>

lemma shuffle_from_mset:
  "i < length x \<Longrightarrow> mset (fst (shuffle_from i x g)) = mset x"
proof (induction i arbitrary: x g)
  case 0
  show ?case by simp
next
  case (Suc i)
  let ?j = "shd g mod (Suc i + 1)"
  let ?x = "x[Suc i := x ! ?j, ?j := x ! Suc i]"
  have "?j < Suc i + 1" by simp
  with Suc.prems have j: "?j < length x" by linarith
  have swap: "mset ?x = mset x" using mset_swap [OF j Suc.prems] .
  have "i < length ?x" using Suc.prems by simp
  from Suc.IH [OF this, of "stl g"] swap show ?case by (simp add: randbelow_def)
qed

lemma shuffle_mset: "mset (fst (shuffle x g)) = mset x"
proof (cases x)
  case Nil
  then show ?thesis by (simp add: shuffle_def)
next
  case (Cons a as)
  then have "length x - 1 < length x" by simp
  then show ?thesis unfolding shuffle_def by (rule shuffle_from_mset)
qed

lemma dict_set_append:
  "k \<notin> set (dict_keys d1) \<Longrightarrow> dict_set (d1 @ (k, v0) # d2) k v = d1 @ (k, v) # d2"
  by (induction d1) (auto simp: dict_keys_def)

lemma assign_scores_append:
  "distinct (dict_keys d2) \<Longrightarrow> set (dict_keys d1) \<inter> set (dict_keys d2) = {} \<Longrightarrow>
   length vs = length d2 \<Longrightarrow>
     assign_scores (zip (dict_keys d2) vs) (d1 @ d2) = d1 @ zip (dict_keys d2) vs"
proof (induction d2 arbitrary: d1 vs)
  case Nil
  then show ?case by (simp add: dict_keys_def)
next
  case (Cons kv d2)
  obtain k v0 where kv: "kv = (k, v0)" by (cases kv)
  from Cons.prems(3) obtain v vs' where vs: "vs = v # vs'" and len: "length vs' = length d2"
    by (cases vs) auto
  from Cons.prems(2) kv have notin: "k \<notin> set (dict_keys d1)" by (auto simp: dict_keys_def)
  from Cons.prems(1) kv have dist: "distinct (dict_keys d2)" and k2: "k \<notin> set (dict_keys d2)"
    by (auto simp: dict_keys_def)
  have disj: "set (dict_keys (d1 @ [(k, v)])) \<inter> set (dict_keys d2) = {}"
    using Cons.prems(2) k2 kv by (auto simp: dict_keys_def)
  have "assign_scores (zip (dict_keys (kv # d2)) vs) (d1 @ kv # d2) =
        assign_scores (zip (dict_keys d2) vs') ((d1 @ [(k, v)]) @ d2)"
    using kv vs dict_set_append [OF notin, of v0 d2 v] by (simp add: dict_keys_def)
  also have "\<dots> = (d1 @ [(k, v)]) @ zip (dict_keys d2) vs'"
    by (rule Cons.IH [OF dist disj len])
  finally show ?case using kv vs by (simp add: dict_keys_def)
qed

lemma assign_scores_all:
  "distinct (dict_keys d) \<Longrightarrow> length vs = length d \<Longrightarrow>
     assign_scores (zip (dict_keys d) vs) d = zip (dict_keys d) vs"
  using assign_scores_append [of d "[]" vs] by (simp add: dict_keys_def)

lemma dict_values_zip: "length ks = length vs \<Longrightarrow> dict_values (zip ks vs) = vs"
  by (simp add: dict_values_def)

lemma dict_keys_zip: "length ks = length vs \<Longrightarrow> dict_keys (zip ks vs) = ks"
  by (simp add: dict_keys_def)

lemma distinct_Player_keys:
  "distinct (dict_keys (abilities Player)) \<and> length (abilities Player) = 6"
  by (simp add: Player_def dict_keys_def)

subsection \<open>\<^verbatim>\<open>set_abilities\<close> as a whole\<close>

lemma dict_keys_assign_scores:
  "set (map fst kvs) \<subseteq> set (dict_keys d) \<Longrightarrow> dict_keys (assign_scores kvs d) = dict_keys d"
proof (induction kvs arbitrary: d)
  case Nil
  show ?case by simp
next
  case (Cons kv kvs)
  obtain k v where kv: "kv = (k, v)" by (cases kv)
  from Cons.prems kv have "k \<in> set (dict_keys d)" by simp
  then obtain v' where "dict_get d k = Some v'"
    using dict_get_None_iff [of d k] by (cases "dict_get d k") auto
  then have keys: "dict_keys (dict_set d k v) = dict_keys d"
    by (rule dict_keys_dict_set)
  with Cons.prems have "set (map fst kvs) \<subseteq> set (dict_keys (dict_set d k v))" by simp
  from Cons.IH [OF this] keys kv show ?case by simp
qed

lemma set_abilities_random:
  assumes keys: "distinct (dict_keys (abilities p))" and len: "length (abilities p) = 6"
    and gen: "generate_scores 6 (rng w) = (scores, g1)"
  shows "set_abilities to_int True p w =
           (None, p\<lparr>abilities := zip (dict_keys (abilities p)) (fst (shuffle scores g1))\<rparr>,
            w\<lparr>rng := snd (shuffle scores g1)\<rparr>)"
proof -
  have "length (fst (shuffle scores g1)) = length scores"
    using shuffle_mset [of scores g1] by (metis size_mset)
  also have "\<dots> = 6" using generate_scores_length [OF gen] .
  finally have "length (fst (shuffle scores g1)) = length (abilities p)" using len by simp
  from assign_scores_all [OF keys this] gen show ?thesis
    by (simp add: set_abilities_def case_prod_beta)
qed

lemma set_abilities_frame:
  assumes run: "set_abilities to_int randomize p w = (r, p', w')"
  shows "dict_keys (abilities p') = dict_keys (abilities p)"
    and "p'\<lparr>abilities := abilities p\<rparr> = p"
proof -
  obtain scores g1 where gen: "generate_scores 6 (rng w) = (scores, g1)"
    by (cases "generate_scores 6 (rng w)")
  have "dict_keys (abilities p') = dict_keys (abilities p) \<and> p'\<lparr>abilities := abilities p\<rparr> = p"
  proof (cases randomize)
    case True
    obtain scores' g2 where sh: "shuffle scores g1 = (scores', g2)"
      by (cases "shuffle scores g1")
    have "set (map fst (zip (dict_keys (abilities p)) scores')) \<subseteq> set (dict_keys (abilities p))"
      by (auto dest: set_zip_leftD)
    from dict_keys_assign_scores [OF this] run gen sh True show ?thesis
      by (auto simp: set_abilities_def)
  next
    case False
    obtain r1 p1 scores1 w1 where
      loop: "choose_scores to_int (dict_keys (abilities p)) p scores (w\<lparr>rng := g1\<rparr>) = (r1, p1, scores1, w1)"
      by (cases "choose_scores to_int (dict_keys (abilities p)) p scores (w\<lparr>rng := g1\<rparr>)")
    from choose_scores_frame [OF loop generate_scores_nonzero [OF gen]] run gen loop False
    show ?thesis by (auto simp: set_abilities_def)
  qed
  then show "dict_keys (abilities p') = dict_keys (abilities p)"
    and "p'\<lparr>abilities := abilities p\<rparr> = p" by simp_all
qed

subsection \<open>Evaluating at concrete inputs\<close>

lemma roll_dice_numeral:
  "roll_dice (numeral k) g =
     (case randint 1 6 g of
        (v, g1) \<Rightarrow> (case roll_dice (pred_numeral k) g1 of (vs, g2) \<Rightarrow> (v # vs, g2)))"
  "roll_dice 1 g = (case randint 1 6 g of (v, g1) \<Rightarrow> ([v], g1))"
  by (simp_all add: numeral_eq_Suc)

lemma generate_scores_numeral:
  "generate_scores (numeral k) g =
     (case generate_score g of
        (s, g1) \<Rightarrow> (case generate_scores (pred_numeral k) g1 of (ss, g2) \<Rightarrow> (s # ss, g2)))"
  "generate_scores 1 g = (case generate_score g of (s, g1) \<Rightarrow> ([s], g1))"
  by (simp_all add: numeral_eq_Suc)

lemma rng_cycle:
  "shd (cycle (x # xs)) = x" "stl (cycle (x # xs)) = cycle (xs @ [x])"
  by simp_all

lemmas eval_scores =
  generate_score_def generate_scores_numeral roll_dice_numeral randint_def randbelow_def rng_cycle

lemma generate_scores_example:
  "generate_scores 6 (cycle [0, 1, 2, 3, 4, 5, 0]) =
     ([12, 13, 14, 15, 12, 13], cycle [4, 5, 0, 0, 1, 2, 3])"
  by (simp add: eval_scores del: cycle.simps)

lemma shuffle_example:
  "shuffle [12, 13, 14, 15, 12, 13 :: int] (cycle [4, 5, 0, 0, 1, 2, 3]) =
     ([14, 13, 15, 13, 12, 12], cycle [2, 3, 4, 5, 0, 0, 1])"
  by (simp add: shuffle_def randbelow_def rng_cycle del: cycle.simps)

subsection \<open>Random assignment\<close>

text \<open>
  C2. A run of \<^verbatim>\<open>set_abilities\<close> with \<^verbatim>\<open>randomize\<close> true on a player that has the six
  ability keys, over any state of the random generator, returns normally; the values
  then stored in the abilities are, as a multiset, the six scores generated (the
  shuffle only permutes them), the keys are the same, and every ability holds one of
  the generated scores. Nothing else of the player changes.
\<close>

theorem C2_random_assignment_permutes_scores:
  assumes keys: "dict_keys (abilities p) = dict_keys (abilities Player)"
    and gen: "generate_scores 6 (rng w) = (scores, g1)"
    and run: "set_abilities to_int True p w = (r, p', w')"
  shows "r = None \<and>
         mset (dict_values (abilities p')) = mset scores \<and>
         dict_keys (abilities p') = dict_keys (abilities p) \<and>
         (\<forall>k \<in> set (dict_keys (abilities p)). \<exists>v \<in> set scores. dict_get (abilities p') k = Some v) \<and>
         p'\<lparr>abilities := abilities p\<rparr> = p"
proof -
  let ?ks = "dict_keys (abilities p)" and ?vs = "fst (shuffle scores g1)"
  have dist: "distinct ?ks" and len: "length (abilities p) = 6"
    using keys distinct_Player_keys by (simp_all add: dict_keys_def) (metis length_map)
  have perm: "mset ?vs = mset scores" by (rule shuffle_mset)
  then have lvs: "length ?vs = length ?ks"
    using generate_scores_length [OF gen] len by (metis length_map dict_keys_def size_mset)
  from set_abilities_random [OF dist len gen] run
  have r: "r = None" and p': "p' = p\<lparr>abilities := zip ?ks ?vs\<rparr>" by simp_all
  have vals: "dict_values (abilities p') = ?vs" using p' lvs by (simp add: dict_values_zip)
  have ks: "dict_keys (abilities p') = ?ks" using p' lvs by (simp add: dict_keys_zip)
  have each: "\<exists>v \<in> set scores. dict_get (abilities p') k = Some v" if "k \<in> set ?ks" for k
  proof (cases "dict_get (abilities p') k")
    case None
    with that ks show ?thesis by (simp add: dict_get_None_iff)
  next
    case (Some v)
    from dict_get_in_values [OF this] vals have "v \<in> set ?vs" by simp
    then have "v \<in> set scores" using perm by (metis set_mset_mset)
    with Some show ?thesis by simp
  qed
  from r vals perm ks each p' show ?thesis by simp
qed

text \<open>
  In the examples, \<open>to_int\<close> is given by the values of \<^verbatim>\<open>int\<close> on the lines that the
  examples read: 99, 12, 13, 14 and 15 for the lines with these numerals. No example
  applies it to another line.
\<close>

theorem C2_random_assignment_witness:
  "set_abilities (map_of [(''99'', 99), (''12'', 12), (''13'', 13),
        (''14'', 14), (''15'', 15)]) True Player \<lparr>rng = cycle [0, 1, 2, 3, 4, 5, 0], stdin = [], stdout = []\<rparr> =
     (None,
      Player\<lparr>abilities :=
        [(''charisma'', 14), (''constitution'', 13), (''dexterity'', 15),
         (''intelligence'', 13), (''strength'', 12), (''wisdom'', 12)]\<rparr>,
      \<lparr>rng = cycle [2, 3, 4, 5, 0, 0, 1], stdin = [], stdout = []\<rparr>) \<and>
   mset [14, 13, 15, 13, 12, 12] = mset [12, 13, 14, 15, 12, 13 :: int]"
proof -
  let ?w = "\<lparr>rng = cycle [0, 1, 2, 3, 4, 5, 0], stdin = [], stdout = []\<rparr>"
  let ?p' = "Player\<lparr>abilities :=
        [(''charisma'', 14), (''constitution'', 13), (''dexterity'', 15),
         (''intelligence'', 13), (''strength'', 12), (''wisdom'', 12)]\<rparr>"
  have gen: "generate_scores 6 (rng ?w) = ([12, 13, 14, 15, 12, 13], cycle [4, 5, 0, 0, 1, 2, 3])"
    using generate_scores_example by simp
  have run: "set_abilities (map_of [(''99'', 99), (''12'', 12), (''13'', 13),
        (''14'', 14), (''15'', 15)]) True Player ?w =
      (None, ?p', \<lparr>rng = cycle [2, 3, 4, 5, 0, 0, 1], stdin = [], stdout = []\<rparr>)"
    using generate_scores_example shuffle_example
    by (simp add: set_abilities_def Player_def dict_keys_def del: cycle.simps)
  from C2_random_assignment_permutes_scores [OF refl gen run] run
  show ?thesis by (simp add: dict_values_def)
qed

subsection \<open>The loop for the race\<close>

lemma ask_race_stdin:
  "ask_race w = (a, w1) \<Longrightarrow>
     (case a of Inl e \<Rightarrow> e = EOFError \<and> stdin w = [] \<and> stdin w1 = []
              | Inr line \<Rightarrow> stdin w = line # stdin w1) \<and> rng w1 = rng w"
  by (auto simp: ask_race_def input_def print_def split: list.splits)

lemma choose_race_set: "truthy (race p) \<Longrightarrow> choose_race p w = (None, p, w)"
  by (subst choose_race.simps) simp

lemma choose_race_eof:
  "\<not> truthy (race p) \<Longrightarrow> ask_race w = (Inl e, w1) \<Longrightarrow> choose_race p w = (Some e, p, w1)"
  by (subst choose_race.simps) simp

lemma choose_race_valid:
  "\<not> truthy (race p) \<Longrightarrow> ask_race w = (Inr line, w1) \<Longrightarrow> line \<in> set races \<Longrightarrow>
     choose_race p w = choose_race (p\<lparr>race := Some line\<rparr>) w1"
  by (subst choose_race.simps) simp

lemma choose_race_invalid:
  "\<not> truthy (race p) \<Longrightarrow> ask_race w = (Inr line, w1) \<Longrightarrow> line \<notin> set races \<Longrightarrow>
     choose_race p w = choose_race p (print ''Invalid choice!'' w1)"
  by (subst choose_race.simps) simp

lemma races_truthy: "line \<in> set races \<Longrightarrow> truthy (Some line)"
  by (auto simp: races_def truthy_def)

text \<open>
  The loop either leaves the player as it is, or it ends normally after storing one
  line of the input that is a member of the list of races.
\<close>

lemma choose_race_result:
  "choose_race p w = (r, p', w') \<Longrightarrow>
     rng w' = rng w \<and>
       (p' = p \<and> (r = None \<longrightarrow> truthy (race p)) \<or>
        \<not> truthy (race p) \<and> r = None \<and>
          (\<exists>line. line \<in> set (stdin w) \<and> line \<in> set races \<and> p' = p\<lparr>race := Some line\<rparr>))"
proof (induction p w arbitrary: r p' w' rule: choose_race.induct)
  case (1 p w)
  note run = "1.prems"
  show ?case
  proof (cases "truthy (race p)")
    case True
    with run show ?thesis by (auto simp: choose_race_set)
  next
    case False
    obtain a w1 where ask: "ask_race w = (a, w1)" by (cases "ask_race w")
    note io = ask_race_stdin [OF ask]
    show ?thesis
    proof (cases a)
      case (Inl e)
      with False ask run io show ?thesis by (auto simp: choose_race_eof)
    next
      case (Inr line)
      note ask' = ask [unfolded Inr]
      from io Inr have line: "stdin w = line # stdin w1" and g1: "rng w1 = rng w" by simp_all
      show ?thesis
      proof (cases "line \<in> set races")
        case True
        let ?p1 = "p\<lparr>race := Some line\<rparr>"
        have "choose_race ?p1 w1 = (None, ?p1, w1)"
          using races_truthy [OF True] by (simp add: choose_race_set)
        with choose_race_valid [OF False ask' True] run
        have "r = None \<and> p' = ?p1 \<and> w' = w1" by simp
        with False True line g1 show ?thesis by auto
      next
        case notin: False
        have "choose_race p (print ''Invalid choice!'' w1) = (r, p', w')"
          using choose_race_invalid [OF False ask' notin] run by simp
        from "1.IH"(2) [OF False ask [symmetric] Inr notin this]
        have "rng w' = rng (print ''Invalid choice!'' w1) \<and>
          (p' = p \<and> (r = None \<longrightarrow> truthy (race p)) \<or>
           \<not> truthy (race p) \<and> r = None \<and>
             (\<exists>line. line \<in> set (stdin (print ''Invalid choice!'' w1)) \<and> line \<in> set races \<and>
                p' = p\<lparr>race := Some line\<rparr>))" .
        then show ?thesis using g1 line by (auto simp: print_def)
      qed
    qed
  qed
qed

lemma length_races: "length races = 2"
  by (simp add: races_def)

lemma set_race_random:
  "set_race True p w =
     (None, p\<lparr>race := Some (races ! (shd (rng w) mod length races))\<rparr>, w\<lparr>rng := stl (rng w)\<rparr>)"
proof -
  have "races \<noteq> []" using length_races by auto
  then show ?thesis by (simp add: set_race_def choice_def randbelow_def)
qed

lemma races_nth: "races ! (n mod length races) \<in> set races"
  by (rule nth_mem) (simp add: length_races)

subsection \<open>\<^verbatim>\<open>set_racial_traits\<close>\<close>

lemma add_to_ability_frame:
  "add_to_ability k n p = Inr p1 \<Longrightarrow>
     dict_keys (abilities p1) = dict_keys (abilities p) \<and> p1\<lparr>abilities := abilities p\<rparr> = p"
  by (auto simp: add_to_ability_def dict_keys_dict_set split: option.splits)

lemma abilities_only_trans:
  "p2\<lparr>abilities := abilities p1\<rparr> = p1 \<Longrightarrow> p1\<lparr>abilities := abilities p\<rparr> = p \<Longrightarrow>
     p2\<lparr>abilities := abilities p\<rparr> = (p :: player)"
  by (cases p, cases p1, cases p2) auto

lemma set_racial_traits_frame:
  assumes "set_racial_traits p w = (r, p', w')"
  shows "dict_keys (abilities p') = dict_keys (abilities p) \<and> p'\<lparr>abilities := abilities p\<rparr> = p \<and>
     rng w' = rng w \<and> stdin w' = stdin w"
proof (cases "race p = Some ''High Elf'' \<and> truthy (race p) \<and>
                \<not> list_ex (\<lambda>v. v = 0) (dict_values (abilities p))")
  case False
  with assms show ?thesis
    by (auto simp: set_racial_traits_def print_def split: if_splits)
next
  case True
  then have he: "race p = Some ''High Elf''" and tr: "truthy (race p)"
    and nz: "\<not> list_ex (\<lambda>v. v = 0) (dict_values (abilities p))" by blast+
  have run: "(case add_to_ability ''charisma'' 1 p of
                Inl e \<Rightarrow> (Some e, p, w)
              | Inr p1 \<Rightarrow>
                  (case add_to_ability ''dexterity'' 2 p1 of
                     Inl e \<Rightarrow> (Some e, p1, w)
                   | Inr p2 \<Rightarrow> (None, p2, w))) = (r, p', w')"
    using assms he tr nz unfolding set_racial_traits_def by simp
  show ?thesis
  proof (cases "add_to_ability ''charisma'' 1 p")
    case (Inl e)
    with run show ?thesis by simp
  next
    case (Inr p1)
    note f1 = add_to_ability_frame [OF Inr]
    show ?thesis
    proof (cases "add_to_ability ''dexterity'' 2 p1")
      case (Inl e)
      with Inr run f1 show ?thesis by simp
    next
      case p2: (Inr p2)
      note f2 = add_to_ability_frame [OF p2]
      from p2 Inr run have "p' = p2 \<and> w' = w" by simp
      moreover have "p2\<lparr>abilities := abilities p\<rparr> = p"
        by (rule abilities_only_trans [where ?p1.0 = p1]) (use f1 f2 in simp_all)
      ultimately show ?thesis using f1 f2 by simp
    qed
  qed
qed

subsection \<open>The race\<close>

lemma choose_race_step:
  "\<not> truthy (race p) \<Longrightarrow>
     choose_race p w =
       (case ask_race w of
          (Inl e, w1) \<Rightarrow> (Some e, p, w1)
        | (Inr r, w1) \<Rightarrow>
            if r \<in> set races
            then choose_race (p\<lparr>race := Some r\<rparr>) w1
            else choose_race p (print ''Invalid choice!'' w1))"
  by (subst choose_race.simps) simp

lemma choose_score_step:
  "dict_get (abilities p) ability = Some 0 \<Longrightarrow>
     choose_score to_int ability p scores w =
       (case ask_score ability scores w of
          (Inl e, w1) \<Rightarrow> (Some e, p, scores, w1)
        | (Inr line, w1) \<Rightarrow>
            (case to_int line of
               None \<Rightarrow> (Some ValueError, p, scores, w1)
             | Some score \<Rightarrow>
                 if score \<in> set scores
                 then choose_score to_int ability
                        (p\<lparr>abilities := dict_set (abilities p) ability score\<rparr>)
                        (remove1 score scores) w1
                 else choose_score to_int ability p scores (print ''Invalid choice!'' w1)))"
  by (subst choose_score.simps) simp

lemmas eval_io = ask_race_def ask_score_def input_def print_def truthy_def races_def

lemma set_race_result:
  assumes run: "set_race randomize p w = (r, p', w')"
  shows "p'\<lparr>race := race p\<rparr> = p"
    and "randomize \<Longrightarrow> r = None \<and> (\<exists>s \<in> set races. race p' = Some s)"
    and "\<not> randomize \<Longrightarrow>
           p' = p \<and> (r = None \<longrightarrow> truthy (race p)) \<or>
           \<not> truthy (race p) \<and> r = None \<and>
             (\<exists>line \<in> set (stdin w). line \<in> set races \<and> race p' = Some line)"
proof -
  show "p'\<lparr>race := race p\<rparr> = p"
  proof (cases randomize)
    case True
    with run show ?thesis by (auto simp: set_race_random)
  next
    case False
    with run have "choose_race p w = (r, p', w')" by (simp add: set_race_def)
    from choose_race_result [OF this] show ?thesis by auto
  qed
  show "r = None \<and> (\<exists>s \<in> set races. race p' = Some s)" if randomize
    using that run races_nth [of "shd (rng w)"] by (auto simp: set_race_random)
  show "p' = p \<and> (r = None \<longrightarrow> truthy (race p)) \<or>
           \<not> truthy (race p) \<and> r = None \<and>
             (\<exists>line \<in> set (stdin w). line \<in> set races \<and> race p' = Some line)"
    if "\<not> randomize"
  proof -
    from that run have "choose_race p w = (r, p', w')" by (simp add: set_race_def)
    from choose_race_result [OF this] show ?thesis by auto
  qed
qed

lemma race_set_abilities: "race (fst (snd (set_abilities to_int b p w))) = race p"
proof -
  obtain r p' w' where run: "set_abilities to_int b p w = (r, p', w')"
    by (cases "set_abilities to_int b p w")
  from set_abilities_frame(2) [OF run] have "race (p'\<lparr>abilities := abilities p\<rparr>) = race p"
    by simp
  with run show ?thesis by simp
qed

lemma race_set_racial_traits: "race (fst (snd (set_racial_traits p w))) = race p"
proof -
  obtain r p' w' where run: "set_racial_traits p w = (r, p', w')"
    by (cases "set_racial_traits p w")
  from set_racial_traits_frame [OF run] have "race (p'\<lparr>abilities := abilities p\<rparr>) = race p"
    by simp
  with run show ?thesis by simp
qed

lemma setup_player_race:
  "case fst (setup_player to_int b w) of Inl e \<Rightarrow> True | Inr q \<Rightarrow> \<exists>s \<in> set races. race q = Some s"
proof -
  obtain r1 p1 w1 where a: "set_abilities to_int b Player w = (r1, p1, w1)"
    by (cases "set_abilities to_int b Player w")
  obtain r2 p2 w2 where b: "set_race b p1 w1 = (r2, p2, w2)"
    by (cases "set_race b p1 w1")
  obtain r3 p3 w3 where c: "set_racial_traits p2 w2 = (r3, p3, w3)"
    by (cases "set_racial_traits p2 w2")
  have r1: "race p1 = None" using race_set_abilities [of to_int b Player w] a by (simp add: Player_def)
  have r3: "race p3 = race p2" using race_set_racial_traits [of p2 w2] c by simp
  have "\<exists>s \<in> set races. race p2 = Some s" if "r2 = None"
  proof (cases b)
    case True
    from set_race_result(2) [OF b True] show ?thesis by simp
  next
    case False
    from set_race_result(3) [OF b False] that r1 show ?thesis by (auto simp: truthy_def)
  qed
  with a b c r3 show ?thesis
    by (auto simp: setup_player_def split: option.splits)
qed

text \<open>
  C3. The race of a new player is unset. Every call of \<^verbatim>\<open>set_race\<close>, however it ends,
  leaves the race unset or a member of the list of races if it was so before; with
  \<^verbatim>\<open>randomize\<close> true it returns normally and stores a member; with \<^verbatim>\<open>randomize\<close> false it
  leaves the race as it was or stores a line of the input that is equal to a member.
  \<^verbatim>\<open>set_abilities\<close> and \<^verbatim>\<open>set_racial_traits\<close> do not touch the race, and a player
  returned by \<^verbatim>\<open>setup_player\<close> has a member of the list as its race.
\<close>

theorem C3_race_unset_or_valid:
  assumes run: "set_race randomize p w = (r, p', w')"
  shows "race_ok Player \<and>
         (race_ok p \<longrightarrow> race_ok p') \<and>
         (randomize \<longrightarrow> r = None \<and> (\<exists>s \<in> set races. race p' = Some s)) \<and>
         (\<not> randomize \<longrightarrow>
            race p' = race p \<or>
            (\<exists>line \<in> set (stdin w). line \<in> set races \<and> race p' = Some line)) \<and>
         race (fst (snd (set_abilities to_int b p w))) = race p \<and>
         race (fst (snd (set_racial_traits p w))) = race p \<and>
         (case fst (setup_player to_int b w) of
            Inl e \<Rightarrow> True
          | Inr q \<Rightarrow> \<exists>s \<in> set races. race q = Some s)"
proof -
  have new: "race_ok Player" by (simp add: race_ok_def Player_def)
  have rand: "r = None \<and> (\<exists>s \<in> set races. race p' = Some s)" if randomize
    using set_race_result(2) [OF run that] .
  have inter: "race p' = race p \<or>
      (\<exists>line \<in> set (stdin w). line \<in> set races \<and> race p' = Some line)" if "\<not> randomize"
    using set_race_result(3) [OF run that] by auto
  have inv: "race_ok p'" if "race_ok p"
  proof (cases randomize)
    case True
    from rand [OF this] show ?thesis by (auto simp: race_ok_def)
  next
    case False
    from inter [OF this] that show ?thesis by (auto simp: race_ok_def)
  qed
  from new inv rand inter race_set_abilities race_set_racial_traits setup_player_race
  show ?thesis by blast
qed

theorem C3_race_witness:
  "race_ok Player \<and>
   set_race False Player
     \<lparr>rng = cycle [0], stdin = [''Dwarf'', ''Human'', ''High Elf''], stdout = []\<rparr> =
     (None, Player\<lparr>race := Some ''Human''\<rparr>,
      \<lparr>rng = cycle [0], stdin = [''High Elf''],
       stdout = [''Races to choose from: ['High Elf', 'Human']\<newline>'',
                 ''What race should we set? '',
                 ''Invalid choice!\<newline>'',
                 ''Races to choose from: ['High Elf', 'Human']\<newline>'',
                 ''What race should we set? '']\<rparr>) \<and>
   race_ok (Player\<lparr>race := Some ''Human''\<rparr>) \<and>
   set_race True Player \<lparr>rng = cycle [0], stdin = [], stdout = []\<rparr> =
     (None, Player\<lparr>race := Some ''High Elf''\<rparr>, \<lparr>rng = cycle [0], stdin = [], stdout = []\<rparr>)"
proof -
  let ?w = "\<lparr>rng = cycle [0], stdin = [''Dwarf'', ''Human'', ''High Elf''], stdout = []\<rparr>"
  let ?w' = "\<lparr>rng = cycle [0], stdin = [''High Elf''],
       stdout = [''Races to choose from: ['High Elf', 'Human']\<newline>'',
                 ''What race should we set? '',
                 ''Invalid choice!\<newline>'',
                 ''Races to choose from: ['High Elf', 'Human']\<newline>'',
                 ''What race should we set? '']\<rparr>"
  have run: "set_race False Player ?w = (None, Player\<lparr>race := Some ''Human''\<rparr>, ?w')"
    by (simp add: set_race_def choose_race_step choose_race_set Player_def eval_io
          str_str_list_def)
  have rnd: "set_race True Player \<lparr>rng = cycle [0], stdin = [], stdout = []\<rparr> =
      (None, Player\<lparr>race := Some ''High Elf''\<rparr>, \<lparr>rng = cycle [0], stdin = [], stdout = []\<rparr>)"
    by (simp add: set_race_random races_def)
  from C3_race_unset_or_valid [OF run] run rnd show ?thesis by simp
qed

subsection \<open>The keys of the abilities\<close>

lemma keys_set_abilities:
  "dict_keys (abilities (fst (snd (set_abilities to_int b p w)))) = dict_keys (abilities p)"
proof -
  obtain r p' w' where run: "set_abilities to_int b p w = (r, p', w')"
    by (cases "set_abilities to_int b p w")
  from set_abilities_frame(1) [OF run] run show ?thesis by simp
qed

lemma keys_set_race:
  "dict_keys (abilities (fst (snd (set_race b p w)))) = dict_keys (abilities p)"
proof -
  obtain r p' w' where run: "set_race b p w = (r, p', w')"
    by (cases "set_race b p w")
  from set_race_result(1) [OF run] have "abilities (p'\<lparr>race := race p\<rparr>) = abilities p"
    by simp
  with run show ?thesis by simp
qed

lemma keys_set_racial_traits:
  "dict_keys (abilities (fst (snd (set_racial_traits p w)))) = dict_keys (abilities p)"
proof -
  obtain r p' w' where run: "set_racial_traits p w = (r, p', w')"
    by (cases "set_racial_traits p w")
  from set_racial_traits_frame [OF run] run show ?thesis by simp
qed

lemma setup_player_keys:
  "case fst (setup_player to_int b w) of
     Inl e \<Rightarrow> True
   | Inr q \<Rightarrow> dict_keys (abilities q) = dict_keys (abilities Player)"
proof -
  obtain r1 p1 w1 where a: "set_abilities to_int b Player w = (r1, p1, w1)"
    by (cases "set_abilities to_int b Player w")
  obtain r2 p2 w2 where b: "set_race b p1 w1 = (r2, p2, w2)"
    by (cases "set_race b p1 w1")
  obtain r3 p3 w3 where c: "set_racial_traits p2 w2 = (r3, p3, w3)"
    by (cases "set_racial_traits p2 w2")
  have "dict_keys (abilities p1) = dict_keys (abilities Player)"
    using keys_set_abilities [of to_int b Player w] a by simp
  moreover have "dict_keys (abilities p2) = dict_keys (abilities p1)"
    using keys_set_race [of b p1 w1] b by simp
  moreover have "dict_keys (abilities p3) = dict_keys (abilities p2)"
    using keys_set_racial_traits [of p2 w2] c by simp
  ultimately show ?thesis using a b c
    by (auto simp: setup_player_def split: option.splits)
qed

text \<open>
  C9. A new player has exactly the keys charisma, constitution, dexterity, intelligence,
  strength and wisdom in its abilities, and after a call of \<^verbatim>\<open>set_abilities\<close> (in
  either mode), of \<^verbatim>\<open>set_race\<close> (in either mode) or of \<^verbatim>\<open>set_racial_traits\<close>, however
  the call ends, the abilities have the keys they had before it, in the same order.
  So has the player that \<^verbatim>\<open>setup_player\<close> returns.
\<close>

theorem C9_ability_keys_fixed:
  "dict_keys (abilities Player) =
     [''charisma'', ''constitution'', ''dexterity'', ''intelligence'', ''strength'', ''wisdom''] \<and>
   dict_keys (abilities (fst (snd (set_abilities to_int randomize p w)))) = dict_keys (abilities p) \<and>
   dict_keys (abilities (fst (snd (set_race randomize p w)))) = dict_keys (abilities p) \<and>
   dict_keys (abilities (fst (snd (set_racial_traits p w)))) = dict_keys (abilities p) \<and>
   (case fst (setup_player to_int randomize w) of
      Inl e \<Rightarrow> True
    | Inr q \<Rightarrow> dict_keys (abilities q) = dict_keys (abilities Player))"
proof -
  have "dict_keys (abilities Player) =
     [''charisma'', ''constitution'', ''dexterity'', ''intelligence'', ''strength'', ''wisdom'']"
    by (simp add: Player_def dict_keys_def)
  with keys_set_abilities keys_set_race keys_set_racial_traits setup_player_keys
  show ?thesis by blast
qed

subsection \<open>\<^verbatim>\<open>set_racial_traits\<close> case by case\<close>

text \<open>
  C4. When some ability is 0, \<^verbatim>\<open>set_racial_traits\<close> returns normally with the player as
  it was and the world changed only by the line that says the abilities are not set.
  When no ability is 0 and the race is unset, it returns normally with the player as it
  was and the world changed only by the line that says the race is not set.
\<close>

theorem C4_traits_preconditions:
  "(list_ex (\<lambda>v. v = 0) (dict_values (abilities p)) \<longrightarrow>
      set_racial_traits p w =
        (None, p,
         w\<lparr>stdout := stdout w @
              [''Abilities are not set! Call set_abilities method first.\<newline>'']\<rparr>)) \<and>
   (\<not> list_ex (\<lambda>v. v = 0) (dict_values (abilities p)) \<and> race p = None \<longrightarrow>
      set_racial_traits p w =
        (None, p,
         w\<lparr>stdout := stdout w @
              [''Race is not set! Call set_race method first.\<newline>'']\<rparr>))"
  by (simp add: set_racial_traits_def print_def truthy_def)

theorem C4_traits_preconditions_witness:
  "set_racial_traits Player \<lparr>rng = cycle [0], stdin = [], stdout = []\<rparr> =
     (None, Player,
      \<lparr>rng = cycle [0], stdin = [],
       stdout = [''Abilities are not set! Call set_abilities method first.\<newline>'']\<rparr>) \<and>
   set_racial_traits
     (Player\<lparr>abilities :=
        [(''charisma'', 14), (''constitution'', 13), (''dexterity'', 15),
         (''intelligence'', 13), (''strength'', 12), (''wisdom'', 12)]\<rparr>)
     \<lparr>rng = cycle [0], stdin = [], stdout = []\<rparr> =
     (None,
      Player\<lparr>abilities :=
        [(''charisma'', 14), (''constitution'', 13), (''dexterity'', 15),
         (''intelligence'', 13), (''strength'', 12), (''wisdom'', 12)]\<rparr>,
      \<lparr>rng = cycle [0], stdin = [],
       stdout = [''Race is not set! Call set_race method first.\<newline>'']\<rparr>)"
  using
    C4_traits_preconditions [of Player "\<lparr>rng = cycle [0], stdin = [], stdout = []\<rparr>"]
    C4_traits_preconditions
      [of "Player\<lparr>abilities :=
        [(''charisma'', 14), (''constitution'', 13), (''dexterity'', 15),
         (''intelligence'', 13), (''strength'', 12), (''wisdom'', 12)]\<rparr>"
       "\<lparr>rng = cycle [0], stdin = [], stdout = []\<rparr>"]
  by (simp add: Player_def dict_values_def)

text \<open>
  C5. For a player that has the six abilities, none of them 0, and the race High Elf,
  one call of \<^verbatim>\<open>set_racial_traits\<close> returns normally, adds 1 to charisma and 2 to
  dexterity, and changes nothing else of the player and nothing of the world.
\<close>

theorem C5_high_elf_bonus:
  assumes "abilities p =
      [(''charisma'', cha), (''constitution'', con), (''dexterity'', dex),
       (''intelligence'', itl), (''strength'', stg), (''wisdom'', wis)]"
    and "\<not> list_ex (\<lambda>v. v = 0) (dict_values (abilities p))"
    and "race p = Some ''High Elf''"
  shows "set_racial_traits p w =
      (None,
       p\<lparr>abilities :=
           [(''charisma'', cha + 1), (''constitution'', con), (''dexterity'', dex + 2),
            (''intelligence'', itl), (''strength'', stg), (''wisdom'', wis)]\<rparr>,
       w)"
  using assms by (simp add: set_racial_traits_def add_to_ability_def truthy_def)

theorem C5_high_elf_bonus_witness:
  "set_racial_traits
     (Player\<lparr>abilities :=
        [(''charisma'', 10), (''constitution'', 10), (''dexterity'', 10),
         (''intelligence'', 10), (''strength'', 10), (''wisdom'', 10)],
        race := Some ''High Elf''\<rparr>)
     \<lparr>rng = cycle [0], stdin = [], stdout = []\<rparr> =
     (None,
      Player\<lparr>abilities :=
        [(''charisma'', 11), (''constitution'', 10), (''dexterity'', 12),
         (''intelligence'', 10), (''strength'', 10), (''wisdom'', 10)],
        race := Some ''High Elf''\<rparr>,
      \<lparr>rng = cycle [0], stdin = [], stdout = []\<rparr>)"
  using C5_high_elf_bonus
    [of "Player\<lparr>abilities :=
        [(''charisma'', 10), (''constitution'', 10), (''dexterity'', 10),
         (''intelligence'', 10), (''strength'', 10), (''wisdom'', 10)],
        race := Some ''High Elf''\<rparr>" 10 10 10 10 10 10
       "\<lparr>rng = cycle [0], stdin = [], stdout = []\<rparr>"]
  by (simp add: dict_values_def)

text \<open>
  C6. For a player with no ability 0 and the race Human, \<^verbatim>\<open>set_racial_traits\<close> returns
  normally and leaves the player and the world as they are.
\<close>

theorem C6_human_unchanged:
  assumes "\<not> list_ex (\<lambda>v. v = 0) (dict_values (abilities p))"
    and "race p = Some ''Human''"
  shows "set_racial_traits p w = (None, p, w)"
  using assms by (simp add: set_racial_traits_def truthy_def)

theorem C6_human_unchanged_witness:
  "set_racial_traits
     (Player\<lparr>abilities :=
        [(''charisma'', 14), (''constitution'', 13), (''dexterity'', 15),
         (''intelligence'', 13), (''strength'', 12), (''wisdom'', 12)],
        race := Some ''Human''\<rparr>)
     \<lparr>rng = cycle [0], stdin = [], stdout = []\<rparr> =
     (None,
      Player\<lparr>abilities :=
        [(''charisma'', 14), (''constitution'', 13), (''dexterity'', 15),
         (''intelligence'', 13), (''strength'', 12), (''wisdom'', 12)],
        race := Some ''Human''\<rparr>,
      \<lparr>rng = cycle [0], stdin = [], stdout = []\<rparr>)"
  using C6_human_unchanged
    [of "Player\<lparr>abilities :=
        [(''charisma'', 14), (''constitution'', 13), (''dexterity'', 15),
         (''intelligence'', 13), (''strength'', 12), (''wisdom'', 12)],
        race := Some ''Human''\<rparr>"
       "\<lparr>rng = cycle [0], stdin = [], stdout = []\<rparr>"]
  by (simp add: dict_values_def)

subsection \<open>No method stores a negative score\<close>

lemma dict_set_legal:
  "list_all (\<lambda>v. 0 \<le> v) (dict_values d) \<Longrightarrow> (0::int) \<le> v \<Longrightarrow>
     list_all (\<lambda>v. 0 \<le> v) (dict_values (dict_set d k v))"
  by (induction d) (auto simp: dict_values_def)

lemma assign_scores_legal:
  "list_all (\<lambda>v. 0 \<le> v) (map snd kvs) \<Longrightarrow> list_all (\<lambda>v. 0 \<le> v) (dict_values d) \<Longrightarrow>
     list_all (\<lambda>v. 0 \<le> v) (dict_values (assign_scores kvs d))"
  by (induction kvs arbitrary: d) (auto simp: dict_set_legal)

lemma generate_scores_legal:
  "generate_scores n g = (scores, g1) \<Longrightarrow> list_all (\<lambda>v. 0 < v) scores"
  using generate_scores_range [of n g] by (auto simp: list_all_iff)

lemma choose_score_legal:
  assumes run: "choose_score to_int ability p scores w = (r, p', scores', w')"
    and pos: "list_all (\<lambda>v. 0 < v) scores" and legal: "scores_legal p"
  shows "scores_legal p' \<and> list_all (\<lambda>v. 0 < v) scores'"
proof -
  from pos have nz: "0 \<notin> set scores" by (auto simp: list_all_iff)
  from choose_score_result [OF run nz]
  consider "p' = p" "scores' = scores"
    | s where "s \<in> set scores" "p' = p\<lparr>abilities := dict_set (abilities p) ability s\<rparr>"
        "scores' = remove1 s scores"
    by blast
  then show ?thesis
  proof cases
    case 1
    with pos legal show ?thesis by simp
  next
    case 2
    from 2(1) pos have "0 \<le> s" by (auto simp: list_all_iff intro: less_imp_le)
    from dict_set_legal [OF legal [unfolded scores_legal_def] this] 2(2)
    have "scores_legal p'" by (simp add: scores_legal_def)
    moreover have "list_all (\<lambda>v. 0 < v) scores'"
      using pos 2(3) by (auto simp: list_all_iff dest: notin_set_remove1)
    ultimately show ?thesis by simp
  qed
qed

lemma choose_scores_legal:
  "choose_scores to_int ks p scores w = (r, p', scores', w') \<Longrightarrow>
   list_all (\<lambda>v. 0 < v) scores \<Longrightarrow> scores_legal p \<Longrightarrow> scores_legal p'"
proof (induction ks arbitrary: p scores w)
  case Nil
  then show ?case by simp
next
  case (Cons k ks)
  obtain r1 p1 scores1 w1 where one: "choose_score to_int k p scores w = (r1, p1, scores1, w1)"
    by (cases "choose_score to_int k p scores w")
  note l = choose_score_legal [OF one Cons.prems(2,3)]
  show ?case
  proof (cases r1)
    case (Some e)
    with one Cons.prems(1) l show ?thesis by simp
  next
    case None
    with one Cons.prems(1) have "choose_scores to_int ks p1 scores1 w1 = (r, p', scores', w')"
      by simp
    from Cons.IH [OF this] l show ?thesis by simp
  qed
qed

lemma set_abilities_legal:
  assumes "scores_legal p"
  shows "scores_legal (fst (snd (set_abilities to_int randomize p w)))"
proof -
  obtain scores g1 where gen: "generate_scores 6 (rng w) = (scores, g1)"
    by (cases "generate_scores 6 (rng w)")
  note pos = generate_scores_legal [OF gen]
  show ?thesis
  proof (cases randomize)
    case True
    obtain scores' g2 where sh: "shuffle scores g1 = (scores', g2)"
      by (cases "shuffle scores g1")
    have "set scores' = set scores"
      using shuffle_mset [of scores g1] sh by (metis fst_conv set_mset_mset)
    with pos have "list_all (\<lambda>v. 0 \<le> v) (map snd (zip (dict_keys (abilities p)) scores'))"
      by (auto simp: list_all_iff dest!: set_zip_rightD intro: less_imp_le)
    from assign_scores_legal [OF this] assms gen sh True show ?thesis
      by (simp add: set_abilities_def scores_legal_def)
  next
    case False
    obtain r1 p1 scores1 w1 where loop:
      "choose_scores to_int (dict_keys (abilities p)) p scores (w\<lparr>rng := g1\<rparr>) = (r1, p1, scores1, w1)"
      by (cases "choose_scores to_int (dict_keys (abilities p)) p scores (w\<lparr>rng := g1\<rparr>)")
    from choose_scores_legal [OF loop pos assms] gen loop False show ?thesis
      by (simp add: set_abilities_def)
  qed
qed

lemma set_race_legal:
  assumes "scores_legal p"
  shows "scores_legal (fst (snd (set_race randomize p w)))"
proof -
  obtain r p' w' where run: "set_race randomize p w = (r, p', w')"
    by (cases "set_race randomize p w")
  from set_race_result(1) [OF run] have "abilities (p'\<lparr>race := race p\<rparr>) = abilities p"
    by simp
  with run assms show ?thesis by (simp add: scores_legal_def)
qed

lemma add_to_ability_legal:
  "add_to_ability k n p = Inr p1 \<Longrightarrow> 0 \<le> n \<Longrightarrow> scores_legal p \<Longrightarrow> scores_legal p1"
proof -
  assume a: "add_to_ability k n p = Inr p1" and n: "0 \<le> n" and l: "scores_legal p"
  from a obtain v where v: "dict_get (abilities p) k = Some v"
    and p1: "p1 = p\<lparr>abilities := dict_set (abilities p) k (v + n)\<rparr>"
    by (auto simp: add_to_ability_def split: option.splits)
  from dict_get_in_values [OF v] l have "0 \<le> v" by (auto simp: scores_legal_def list_all_iff)
  with n have "0 \<le> v + n" by simp
  from dict_set_legal [OF l [unfolded scores_legal_def] this] p1 show ?thesis
    by (simp add: scores_legal_def)
qed

lemma set_racial_traits_legal:
  assumes "scores_legal p"
  shows "scores_legal (fst (snd (set_racial_traits p w)))"
proof (cases "add_to_ability ''charisma'' 1 p")
  case (Inl e)
  with assms show ?thesis by (simp add: set_racial_traits_def)
next
  case (Inr p1)
  from add_to_ability_legal [OF Inr _ assms] have l1: "scores_legal p1" by simp
  show ?thesis
  proof (cases "add_to_ability ''dexterity'' 2 p1")
    case (Inl e)
    with Inr assms l1 show ?thesis by (simp add: set_racial_traits_def)
  next
    case p2: (Inr p2)
    from add_to_ability_legal [OF p2 _ l1] have "scores_legal p2" by simp
    with p2 Inr assms show ?thesis by (simp add: set_racial_traits_def)
  qed
qed

text \<open>
  C7. Two calls of \<^verbatim>\<open>set_racial_traits\<close> in a row: the second runs when the first
  returned normally. A new player has no negative score, and no method ever leaves a
  negative score in a player that had none, however the call ends. For every such
  player that has the six abilities, none of them 0, and the race High Elf, the two
  calls return normally and add 2 to charisma and 4 to dexterity in all, changing
  nothing else: the bonus is applied twice.
\<close>

theorem C7_high_elf_bonus_twice:
  "scores_legal Player \<and>
   (scores_legal q \<longrightarrow>
      scores_legal (fst (snd (set_abilities to_int randomize q u))) \<and>
      scores_legal (fst (snd (set_race randomize q u))) \<and>
      scores_legal (fst (snd (set_racial_traits q u)))) \<and>
   (scores_legal p \<and>
    abilities p =
      [(''charisma'', cha), (''constitution'', con), (''dexterity'', dex),
       (''intelligence'', itl), (''strength'', stg), (''wisdom'', wis)] \<and>
    \<not> list_ex (\<lambda>v. v = 0) (dict_values (abilities p)) \<and>
    race p = Some ''High Elf'' \<longrightarrow>
      (case set_racial_traits p w of
         (Some e, p1, w1) \<Rightarrow> (Some e, p1, w1)
       | (None, p1, w1) \<Rightarrow> set_racial_traits p1 w1) =
      (None,
       p\<lparr>abilities :=
           [(''charisma'', cha + 2), (''constitution'', con), (''dexterity'', dex + 4),
            (''intelligence'', itl), (''strength'', stg), (''wisdom'', wis)]\<rparr>,
       w))"
proof -
  have new: "scores_legal Player"
    by (simp add: scores_legal_def Player_def dict_values_def)
  have twice: "(case set_racial_traits p w of
         (Some e, p1, w1) \<Rightarrow> (Some e, p1, w1)
       | (None, p1, w1) \<Rightarrow> set_racial_traits p1 w1) =
      (None,
       p\<lparr>abilities :=
           [(''charisma'', cha + 2), (''constitution'', con), (''dexterity'', dex + 4),
            (''intelligence'', itl), (''strength'', stg), (''wisdom'', wis)]\<rparr>,
       w)"
    if "scores_legal p"
      "abilities p =
        [(''charisma'', cha), (''constitution'', con), (''dexterity'', dex),
         (''intelligence'', itl), (''strength'', stg), (''wisdom'', wis)]"
      "\<not> list_ex (\<lambda>v. v = 0) (dict_values (abilities p))"
      "race p = Some ''High Elf''"
  proof -
    from that(1,2) have "0 \<le> cha" "0 \<le> dex"
      by (simp_all add: scores_legal_def dict_values_def)
    then have "cha + 1 \<noteq> 0" "dex + 2 \<noteq> 0" by simp_all
    with that(2,3,4) show ?thesis
      by (simp add: set_racial_traits_def add_to_ability_def truthy_def dict_values_def)
  qed
  from new twice set_abilities_legal set_race_legal set_racial_traits_legal
  show ?thesis by blast
qed

text \<open>
  An example with a player that the module builds: its scores are those of the run of
  \<^verbatim>\<open>set_abilities\<close> shown for C2, its race one that \<^verbatim>\<open>set_race\<close> stores.
\<close>

theorem C7_high_elf_bonus_twice_witness:
  "scores_legal Player \<and>
   scores_legal
     (fst (snd (set_abilities (map_of [(''99'', 99), (''12'', 12), (''13'', 13),
        (''14'', 14), (''15'', 15)]) True Player
        \<lparr>rng = cycle [0, 1, 2, 3, 4, 5, 0], stdin = [], stdout = []\<rparr>))) \<and>
   scores_legal
     (Player\<lparr>abilities :=
          [(''charisma'', 14), (''constitution'', 13), (''dexterity'', 15),
           (''intelligence'', 13), (''strength'', 12), (''wisdom'', 12)],
          race := Some ''High Elf''\<rparr>) \<and>
   (case set_racial_traits
       (Player\<lparr>abilities :=
          [(''charisma'', 14), (''constitution'', 13), (''dexterity'', 15),
           (''intelligence'', 13), (''strength'', 12), (''wisdom'', 12)],
          race := Some ''High Elf''\<rparr>)
       \<lparr>rng = cycle [0], stdin = [], stdout = []\<rparr> of
      (Some e, p1, w1) \<Rightarrow> (Some e, p1, w1)
    | (None, p1, w1) \<Rightarrow> set_racial_traits p1 w1) =
     (None,
      Player\<lparr>abilities :=
          [(''charisma'', 16), (''constitution'', 13), (''dexterity'', 19),
           (''intelligence'', 13), (''strength'', 12), (''wisdom'', 12)],
          race := Some ''High Elf''\<rparr>,
      \<lparr>rng = cycle [0], stdin = [], stdout = []\<rparr>)"
proof -
  let ?p = "Player\<lparr>abilities :=
          [(''charisma'', 14), (''constitution'', 13), (''dexterity'', 15),
           (''intelligence'', 13), (''strength'', 12), (''wisdom'', 12)],
          race := Some ''High Elf''\<rparr>"
  note th = C7_high_elf_bonus_twice
    [of Player "map_of [(''99'', 99), (''12'', 12), (''13'', 13),
        (''14'', 14), (''15'', 15)]" True
       "\<lparr>rng = cycle [0, 1, 2, 3, 4, 5, 0], stdin = [], stdout = []\<rparr>"
       ?p 14 13 15 13 12 12 "\<lparr>rng = cycle [0], stdin = [], stdout = []\<rparr>"]
  have legal: "scores_legal ?p"
    by (simp add: scores_legal_def dict_values_def)
  have hyps: "scores_legal ?p \<and>
      abilities ?p =
        [(''charisma'', 14), (''constitution'', 13), (''dexterity'', 15),
         (''intelligence'', 13), (''strength'', 12), (''wisdom'', 12)] \<and>
      \<not> list_ex (\<lambda>v. v = 0) (dict_values (abilities ?p)) \<and> race ?p = Some ''High Elf''"
    using legal by (simp add: dict_values_def)
  from th [THEN conjunct1] th [THEN conjunct2, THEN conjunct1, rule_format, OF th [THEN conjunct1]]
    th [THEN conjunct2, THEN conjunct2, rule_format, OF hyps] legal
  show ?thesis by simp
qed

subsection \<open>Interactive assignment\<close>

lemma set_abilities_interactive:
  "generate_scores 6 (rng w) = (scores, g1) \<Longrightarrow>
     set_abilities to_int False p w =
       (case choose_scores to_int (dict_keys (abilities p)) p scores (w\<lparr>rng := g1\<rparr>) of
          (r, p1, scores1, w1) \<Rightarrow> (r, p1, w1))"
  by (simp add: set_abilities_def)

text \<open>The loop over the abilities is the loop over those of them that are 0.\<close>

lemma choose_scores_unset_only:
  "distinct ks \<Longrightarrow> set ks \<subseteq> set (dict_keys (abilities p)) \<Longrightarrow> 0 \<notin> set scores \<Longrightarrow>
     choose_scores to_int ks p scores w =
       choose_scores to_int (filter (\<lambda>k. dict_get (abilities p) k = Some 0) ks) p scores w"
proof (induction ks arbitrary: p scores w)
  case Nil
  show ?case by simp
next
  case (Cons k ks)
  from Cons.prems have dist: "distinct ks" and notin: "k \<notin> set ks"
    and sub: "set ks \<subseteq> set (dict_keys (abilities p))"
    and kin: "k \<in> set (dict_keys (abilities p))" by simp_all
  from kin obtain v where v: "dict_get (abilities p) k = Some v"
    using dict_get_None_iff [of "abilities p" k] by (cases "dict_get (abilities p) k") auto
  show ?case
  proof (cases "v = 0")
    case False
    with v have "choose_score to_int k p scores w = (None, p, scores, w)"
      by (simp add: choose_score_set)
    with False v Cons.IH [OF dist sub Cons.prems(3), of w] show ?thesis by simp
  next
    case True
    with v have z: "dict_get (abilities p) k = Some 0" by simp
    obtain r1 p1 scores1 w1 where one: "choose_score to_int k p scores w = (r1, p1, scores1, w1)"
      by (cases "choose_score to_int k p scores w")
    show ?thesis
    proof (cases r1)
      case (Some e)
      with one z show ?thesis by simp
    next
      case None
      note f = choose_score_frame [OF one Cons.prems(3)]
      from choose_score_result [OF one Cons.prems(3)] None z
      obtain s where p1: "p1 = p\<lparr>abilities := dict_set (abilities p) k s\<rparr>" by auto
      have same: "dict_get (abilities p1) k' = dict_get (abilities p) k'" if "k' \<in> set ks" for k'
        using that notin p1 by (auto simp: dict_get_dict_set)
      have flt: "filter (\<lambda>k. dict_get (abilities p1) k = Some 0) ks =
                 filter (\<lambda>k. dict_get (abilities p) k = Some 0) ks"
        by (rule filter_cong) (simp_all add: same)
      have sub1: "set ks \<subseteq> set (dict_keys (abilities p1))" using sub f(1) by simp
      from Cons.IH [OF dist sub1 f(4), of w1] flt
      have "choose_scores to_int ks p1 scores1 w1 =
            choose_scores to_int (filter (\<lambda>k. dict_get (abilities p) k = Some 0) ks) p1 scores1 w1"
        by simp
      with one None z show ?thesis by simp
    qed
  qed
qed

text \<open>
  C10. In a call of \<^verbatim>\<open>set_abilities\<close> with \<^verbatim>\<open>randomize\<close> false, however it ends, an
  ability that held a value other than 0 before the call holds the same value after
  it, and the loop for such an ability does nothing: it asks nothing, reads nothing and
  takes no score. When no ability is 0, the call returns normally with the player as
  it was, having read nothing and written nothing. When the keys are distinct, as
  those of a dict are, the call is the loop over the abilities that were 0 before it.
\<close>

theorem C10_set_abilities_keeps_set_values:
  assumes run: "set_abilities to_int False p w = (r, p', w')"
    and gen: "generate_scores 6 (rng w) = (scores, g1)"
  shows "(\<forall>k v. dict_get (abilities p) k = Some v \<and> v \<noteq> 0 \<longrightarrow>
            dict_get (abilities p') k = Some v \<and>
            (\<forall>q pool u. dict_get (abilities q) k = Some v \<longrightarrow>
               choose_score to_int k q pool u = (None, q, pool, u))) \<and>
         (\<not> list_ex (\<lambda>v. v = 0) (dict_values (abilities p)) \<longrightarrow>
            r = None \<and> p' = p \<and> stdin w' = stdin w \<and> stdout w' = stdout w) \<and>
         (distinct (dict_keys (abilities p)) \<longrightarrow>
            (r, p', w') =
              (case choose_scores to_int
                      (filter (\<lambda>k. dict_get (abilities p) k = Some 0) (dict_keys (abilities p)))
                      p scores (w\<lparr>rng := g1\<rparr>) of
                 (r1, p1, scores1, w1) \<Rightarrow> (r1, p1, w1)))"
proof -
  let ?ks = "dict_keys (abilities p)" and ?w = "w\<lparr>rng := g1\<rparr>"
  note nz = generate_scores_nonzero [OF gen]
  obtain r1 p1 scores1 w1 where loop: "choose_scores to_int ?ks p scores ?w = (r1, p1, scores1, w1)"
    by (cases "choose_scores to_int ?ks p scores ?w")
  from run loop have res: "r = r1" "p' = p1" "w' = w1"
    by (simp_all add: set_abilities_interactive [OF gen])
  have keeps: "dict_get (abilities p') k = Some v \<and>
      (\<forall>q pool u. dict_get (abilities q) k = Some v \<longrightarrow> choose_score to_int k q pool u = (None, q, pool, u))"
    if "dict_get (abilities p) k = Some v" "v \<noteq> 0" for k v
    using choose_scores_keeps [OF loop nz that] that(2) res by (simp add: choose_score_set)
  have idle: "r = None \<and> p' = p \<and> stdin w' = stdin w \<and> stdout w' = stdout w"
    if "\<not> list_ex (\<lambda>v. v = 0) (dict_values (abilities p))"
    using choose_scores_all_set [OF all_keys_set [OF that], of to_int scores ?w] loop res by simp
  have only: "(r, p', w') =
      (case choose_scores to_int (filter (\<lambda>k. dict_get (abilities p) k = Some 0) ?ks) p scores ?w of
         (r1, p1, scores1, w1) \<Rightarrow> (r1, p1, w1))"
    if "distinct ?ks"
  proof -
    have "choose_scores to_int (filter (\<lambda>k. dict_get (abilities p) k = Some 0) ?ks) p scores ?w =
          (r1, p1, scores1, w1)"
      using choose_scores_unset_only [OF that subset_refl nz, of to_int ?w] loop by simp
    then show ?thesis using res by simp
  qed
  from keeps idle only show ?thesis by blast
qed

lemmas eval_str = str_int_list_def str_int_def str_nat.simps

theorem C10_set_abilities_keeps_witness:
  "set_abilities (map_of [(''99'', 99), (''12'', 12), (''13'', 13),
        (''14'', 14), (''15'', 15)]) False
     (Player\<lparr>abilities :=
        [(''charisma'', 11), (''constitution'', 9), (''dexterity'', 7),
         (''intelligence'', 0), (''strength'', 5), (''wisdom'', 6)]\<rparr>)
     \<lparr>rng = cycle [0, 1, 2, 3, 4, 5, 0], stdin = [''99'', ''13'', ''12''], stdout = []\<rparr> =
     (None,
      Player\<lparr>abilities :=
        [(''charisma'', 11), (''constitution'', 9), (''dexterity'', 7),
         (''intelligence'', 13), (''strength'', 5), (''wisdom'', 6)]\<rparr>,
      \<lparr>rng = cycle [4, 5, 0, 0, 1, 2, 3], stdin = [''12''],
       stdout =
         [''Scores to choose from: [12, 13, 14, 15, 12, 13]\<newline>'',
          ''What should should we assign to intelligence? '',
          ''Invalid choice!\<newline>'',
          ''Scores to choose from: [12, 13, 14, 15, 12, 13]\<newline>'',
          ''What should should we assign to intelligence? '']\<rparr>) \<and>
   dict_get
     (abilities (fst (snd (set_abilities (map_of [(''99'', 99), (''12'', 12), (''13'', 13),
        (''14'', 14), (''15'', 15)]) False
        (Player\<lparr>abilities :=
           [(''charisma'', 11), (''constitution'', 9), (''dexterity'', 7),
            (''intelligence'', 0), (''strength'', 5), (''wisdom'', 6)]\<rparr>)
        \<lparr>rng = cycle [0, 1, 2, 3, 4, 5, 0], stdin = [''99'', ''13'', ''12''], stdout = []\<rparr>))))
     ''dexterity'' = Some 7"
proof -
  let ?p = "Player\<lparr>abilities :=
        [(''charisma'', 11), (''constitution'', 9), (''dexterity'', 7),
         (''intelligence'', 0), (''strength'', 5), (''wisdom'', 6)]\<rparr>"
  let ?w = "\<lparr>rng = cycle [0, 1, 2, 3, 4, 5, 0], stdin = [''99'', ''13'', ''12''], stdout = []\<rparr>"
  let ?p' = "Player\<lparr>abilities :=
        [(''charisma'', 11), (''constitution'', 9), (''dexterity'', 7),
         (''intelligence'', 13), (''strength'', 5), (''wisdom'', 6)]\<rparr>"
  let ?w' = "\<lparr>rng = cycle [4, 5, 0, 0, 1, 2, 3], stdin = [''12''],
       stdout =
         [''Scores to choose from: [12, 13, 14, 15, 12, 13]\<newline>'',
          ''What should should we assign to intelligence? '',
          ''Invalid choice!\<newline>'',
          ''Scores to choose from: [12, 13, 14, 15, 12, 13]\<newline>'',
          ''What should should we assign to intelligence? '']\<rparr>"
  have gen: "generate_scores 6 (rng ?w) = ([12, 13, 14, 15, 12, 13], cycle [4, 5, 0, 0, 1, 2, 3])"
    using generate_scores_example by simp
  have run: "set_abilities (map_of [(''99'', 99), (''12'', 12), (''13'', 13),
        (''14'', 14), (''15'', 15)]) False ?p ?w = (None, ?p', ?w')"
    using generate_scores_example
    by (simp add: set_abilities_def Player_def dict_keys_def choose_score_set choose_score_step
          eval_io eval_str del: cycle.simps)
  have pre: "dict_get (abilities ?p) ''dexterity'' = Some 7 \<and> (7 :: int) \<noteq> 0"
    by (simp add: Player_def)
  have "dict_get (abilities ?p') ''dexterity'' = Some 7"
    using C10_set_abilities_keeps_set_values
            [OF run gen, THEN conjunct1, rule_format, OF pre]
    by (rule conjunct1)
  with run show ?thesis by simp
qed

subsection \<open>Runs of the interactive assignment from unset abilities\<close>

lemma mset_fold_remove1: "mset (fold remove1 vs xs) = mset xs - mset vs"
  by (induction vs arbitrary: xs) simp_all

lemma values_by_keys:
  "distinct (dict_keys d) \<Longrightarrow> map (\<lambda>k. the (dict_get d k)) (dict_keys d) = dict_values d"
proof (induction d)
  case Nil
  show ?case by (simp add: dict_keys_def dict_values_def)
next
  case (Cons kv d)
  obtain k v where kv: "kv = (k, v)" by (cases kv)
  from Cons.prems kv have notin: "k \<notin> set (dict_keys d)" and dist: "distinct (dict_keys d)"
    by (simp_all add: dict_keys_def)
  have "map (\<lambda>k'. the (dict_get (kv # d) k')) (dict_keys d) =
        map (\<lambda>k'. the (dict_get d k')) (dict_keys d)"
    by (rule map_cong) (use notin kv in auto)
  with Cons.IH [OF dist] kv show ?case by (simp add: dict_keys_def dict_values_def)
qed

lemma ask_score_line:
  assumes "stdin w = line # rest"
  obtains w1 where "ask_score ability scores w = (Inr line, w1)"
    and "stdin w1 = rest" and "rng w1 = rng w"
  using assms by (simp add: ask_score_def input_def print_def)

text \<open>
  Answers that are taken from the scores, one for each ability in turn, are all
  accepted: every ability gets its answer, and the answers leave the list of scores.
\<close>

lemma choose_scores_valid_run:
  "distinct ks \<Longrightarrow> list_all (\<lambda>k. dict_get (abilities p) k = Some 0) ks \<Longrightarrow>
   0 \<notin> set scores \<Longrightarrow> stdin w = lines @ later \<Longrightarrow> map to_int lines = map Some vs \<Longrightarrow>
   length vs = length ks \<Longrightarrow> mset vs \<subseteq># mset scores \<Longrightarrow>
     \<exists>w'. choose_scores to_int ks p scores w =
            (None, p\<lparr>abilities := assign_scores (zip ks vs) (abilities p)\<rparr>,
             fold remove1 vs scores, w') \<and>
          stdin w' = later \<and> rng w' = rng w"
proof (induction ks arbitrary: p scores w lines vs)
  case Nil
  then show ?case by simp
next
  case (Cons k ks)
  from Cons.prems(6) obtain v vs' where vs: "vs = v # vs'" and len: "length vs' = length ks"
    by (cases vs) auto
  from Cons.prems(5) vs obtain line lines' where lines: "lines = line # lines'"
    and line: "to_int line = Some v" and rest: "map to_int lines' = map Some vs'"
    by (cases lines) auto
  from Cons.prems(7) vs have vin: "v \<in> set scores" and sub: "mset vs' \<subseteq># mset (remove1 v scores)"
    by (auto simp: insert_subset_eq_iff)
  with Cons.prems(3) have vnz: "v \<noteq> 0" by auto
  from Cons.prems(1) have dist: "distinct ks" and notin: "k \<notin> set ks" by simp_all
  from Cons.prems(2) have z: "dict_get (abilities p) k = Some 0"
    and zs: "list_all (\<lambda>k. dict_get (abilities p) k = Some 0) ks" by simp_all
  let ?p1 = "p\<lparr>abilities := dict_set (abilities p) k v\<rparr>"
  from Cons.prems(4) lines have "stdin w = line # (lines' @ later)" by simp
  then obtain w1 where ask: "ask_score k scores w = (Inr line, w1)"
    and in1: "stdin w1 = lines' @ later" and g1: "rng w1 = rng w"
    by (rule ask_score_line)
  have "dict_get (abilities ?p1) k = Some v" by (simp add: dict_get_dict_set)
  then have "choose_score to_int k ?p1 (remove1 v scores) w1 = (None, ?p1, remove1 v scores, w1)"
    using vnz by (rule choose_score_set)
  with choose_score_valid [where to_int = to_int, OF z ask line vin]
  have one: "choose_score to_int k p scores w = (None, ?p1, remove1 v scores, w1)" by simp
  have zs1: "list_all (\<lambda>k. dict_get (abilities ?p1) k = Some 0) ks"
    using zs notin by (auto simp: list_all_iff dict_get_dict_set)
  have nz1: "0 \<notin> set (remove1 v scores)"
    using Cons.prems(3) by (auto dest: notin_set_remove1)
  from Cons.IH [OF dist zs1 nz1 in1 rest len sub]
  obtain w' where run: "choose_scores to_int ks ?p1 (remove1 v scores) w1 =
      (None, ?p1\<lparr>abilities := assign_scores (zip ks vs') (abilities ?p1)\<rparr>,
       fold remove1 vs' (remove1 v scores), w')"
    and in': "stdin w' = later" and g': "rng w' = rng w1" by blast
  from one run vs have "choose_scores to_int (k # ks) p scores w =
      (None, p\<lparr>abilities := assign_scores (zip (k # ks) vs) (abilities p)\<rparr>,
       fold remove1 vs scores, w')" by simp
  with in' g' g1 show ?case by simp
qed

text \<open>
  However the answers come, when the loop over abilities that are all unset returns
  normally, the values they hold and the scores that are left make up the scores there
  were, and the other abilities are as before.
\<close>

lemma choose_scores_normal_return:
  "distinct ks \<Longrightarrow> list_all (\<lambda>k. dict_get (abilities p) k = Some 0) ks \<Longrightarrow>
   0 \<notin> set scores \<Longrightarrow> choose_scores to_int ks p scores w = (None, p', scores', w') \<Longrightarrow>
     mset (map (\<lambda>k. the (dict_get (abilities p') k)) ks) + mset scores' = mset scores \<and>
     (\<forall>k. k \<notin> set ks \<longrightarrow> dict_get (abilities p') k = dict_get (abilities p) k)"
proof (induction ks arbitrary: p scores w)
  case Nil
  then show ?case by simp
next
  case (Cons k ks)
  from Cons.prems(1) have dist: "distinct ks" and notin: "k \<notin> set ks" by simp_all
  from Cons.prems(2) have z: "dict_get (abilities p) k = Some 0"
    and zs: "list_all (\<lambda>k. dict_get (abilities p) k = Some 0) ks" by simp_all
  obtain r1 p1 scores1 w1 where one: "choose_score to_int k p scores w = (r1, p1, scores1, w1)"
    by (cases "choose_score to_int k p scores w")
  from one Cons.prems(4) have r1: "r1 = None"
    and run: "choose_scores to_int ks p1 scores1 w1 = (None, p', scores', w')"
    by (cases r1; simp)+
  from choose_score_result [OF one Cons.prems(3)] r1 z
  obtain s where s: "s \<in> set scores" and p1: "p1 = p\<lparr>abilities := dict_set (abilities p) k s\<rparr>"
    and scores1: "scores1 = remove1 s scores" by auto
  have zs1: "list_all (\<lambda>k. dict_get (abilities p1) k = Some 0) ks"
    using zs notin p1 by (auto simp: list_all_iff dict_get_dict_set)
  have nz1: "0 \<notin> set scores1"
    using Cons.prems(3) scores1 by (auto dest: notin_set_remove1)
  from Cons.IH [OF dist zs1 nz1 run]
  have parts: "mset (map (\<lambda>k. the (dict_get (abilities p') k)) ks) + mset scores' = mset scores1"
    and others: "\<And>k'. k' \<notin> set ks \<Longrightarrow> dict_get (abilities p') k' = dict_get (abilities p1) k'"
    by simp_all
  have k: "dict_get (abilities p') k = Some s"
    using others [OF notin] p1 by (simp add: dict_get_dict_set)
  have "mset (map (\<lambda>k. the (dict_get (abilities p') k)) (k # ks)) + mset scores' =
        add_mset s (mset scores1)"
    using parts k by simp
  also have "\<dots> = mset scores" using s scores1 by simp
  finally have whole:
    "mset (map (\<lambda>k. the (dict_get (abilities p') k)) (k # ks)) + mset scores' = mset scores" .
  have "dict_get (abilities p') k' = dict_get (abilities p) k'" if "k' \<notin> set (k # ks)" for k'
    using that others [of k'] p1 by (simp add: dict_get_dict_set)
  with whole show ?case by simp
qed

lemma Player_unset:
  "abilities q = abilities Player \<Longrightarrow>
     list_all (\<lambda>k. dict_get (abilities q) k = Some 0) (dict_keys (abilities q))"
  by (simp add: Player_def dict_keys_def)

lemma unset_normal_return:
  assumes fresh: "abilities q = abilities Player"
    and gen: "generate_scores 6 (rng v) = (pool, g1)"
    and loop: "choose_scores to_int (dict_keys (abilities q)) q pool (v\<lparr>rng := g1\<rparr>) = (None, q', pool', v')"
  shows "pool' = [] \<and> \<not> list_ex (\<lambda>x. x = 0) (dict_values (abilities q')) \<and>
         mset (dict_values (abilities q')) = mset pool"
proof -
  let ?ks = "dict_keys (abilities q)"
  note nz = generate_scores_nonzero [OF gen]
  have dist: "distinct ?ks" and len: "length ?ks = 6"
    using fresh distinct_Player_keys by (simp_all add: dict_keys_def)
  have keys: "dict_keys (abilities q') = ?ks"
    using choose_scores_frame [OF loop nz] by simp
  from choose_scores_normal_return [OF dist Player_unset [OF fresh] nz loop]
  have "mset (map (\<lambda>k. the (dict_get (abilities q') k)) ?ks) + mset pool' = mset pool" by simp
  moreover have "map (\<lambda>k. the (dict_get (abilities q') k)) ?ks = dict_values (abilities q')"
    using values_by_keys [of "abilities q'"] dist keys by simp
  ultimately have sum: "mset (dict_values (abilities q')) + mset pool' = mset pool" by simp
  have "length (dict_values (abilities q')) = 6"
    using keys len by (simp add: dict_values_def dict_keys_def) (metis length_map)
  moreover have "length pool = 6" by (rule generate_scores_length [OF gen])
  ultimately have "length pool' = 0"
    using sum by (metis add_cancel_right_right size_mset size_union length_0_conv add_left_cancel)
  then have empty: "pool' = []" by simp
  with sum have vals: "mset (dict_values (abilities q')) = mset pool" by simp
  then have "set (dict_values (abilities q')) = set pool" by (metis set_mset_mset)
  with nz have "\<not> list_ex (\<lambda>x. x = 0) (dict_values (abilities q'))"
    by (auto simp: list_ex_iff)
  with empty vals show ?thesis by simp
qed

lemma unset_valid_run:
  assumes fresh: "abilities q = abilities Player"
    and gen: "generate_scores 6 (rng v) = (pool, g1)"
    and lines: "map to_int (stdin v) = map Some vs"
    and perm: "mset vs = mset pool"
  shows "\<exists>v'. choose_scores to_int (dict_keys (abilities q)) q pool (v\<lparr>rng := g1\<rparr>) =
                (None, q\<lparr>abilities := zip (dict_keys (abilities q)) vs\<rparr>, [], v') \<and>
              stdin v' = []"
proof -
  let ?ks = "dict_keys (abilities q)"
  note nz = generate_scores_nonzero [OF gen]
  have dist: "distinct ?ks" and len: "length (abilities q) = 6"
    using fresh distinct_Player_keys by (simp_all add: dict_keys_def)
  have "length vs = length pool" using perm by (metis size_mset)
  then have lvs: "length vs = length (abilities q)"
    using generate_scores_length [OF gen] len by simp
  then have lks: "length vs = length ?ks" by (simp add: dict_keys_def)
  have sub: "mset vs \<subseteq># mset pool" using perm by simp
  have inp: "stdin (v\<lparr>rng := g1\<rparr>) = stdin v @ []" by simp
  from choose_scores_valid_run [where to_int = to_int, OF dist Player_unset [OF fresh] nz inp lines lks sub]
  obtain v' where run: "choose_scores to_int ?ks q pool (v\<lparr>rng := g1\<rparr>) =
      (None, q\<lparr>abilities := assign_scores (zip ?ks vs) (abilities q)\<rparr>, fold remove1 vs pool, v')"
    and fin: "stdin v' = []" by blast
  have "mset (fold remove1 vs pool) = {#}" using perm by (simp add: mset_fold_remove1)
  then have "fold remove1 vs pool = []" by simp
  moreover have "assign_scores (zip ?ks vs) (abilities q) = zip ?ks vs"
    by (rule assign_scores_all [OF dist lvs])
  ultimately show ?thesis using run fin by simp
qed

text \<open>
  C8. Whatever \<^verbatim>\<open>int\<close> makes of the lines it is given: in the interactive loop, when
  an ability is unset and \<^verbatim>\<open>int\<close> returns a number for the line read, a number that is
  not among the scores restarts the loop for the same ability with the same player and
  the same scores, after the line that says the choice is invalid; a number that is
  among the scores is stored for the ability and its first occurrence leaves the
  scores, which lose exactly that one element.
  For a player whose six abilities are all unset and the six generated scores:
  \<^verbatim>\<open>set_abilities\<close> ends as the loop over the abilities ends; whenever that loop returns
  normally, no score is left, no ability is 0, and the abilities hold the generated
  scores as a multiset; and six lines for which \<^verbatim>\<open>int\<close> returns the generated scores in
  some order are all accepted, each ability getting its number.
\<close>

theorem C8_interactive_selection:
  "(dict_get (abilities p) ability = Some 0 \<and> ask_score ability scores w = (Inr line, w1) \<and>
    to_int line = Some score \<longrightarrow>
      (score \<notin> set scores \<longrightarrow>
         choose_score to_int ability p scores w =
           choose_score to_int ability p scores (print ''Invalid choice!'' w1)) \<and>
      (score \<in> set scores \<longrightarrow>
         choose_score to_int ability p scores w =
           choose_score to_int ability (p\<lparr>abilities := dict_set (abilities p) ability score\<rparr>)
             (remove1 score scores) w1 \<and>
         dict_get (dict_set (abilities p) ability score) ability = Some score \<and>
         mset (remove1 score scores) = mset scores - {#score#})) \<and>
   (abilities q = abilities Player \<and> generate_scores 6 (rng v) = (pool, g1) \<longrightarrow>
      (\<forall>r q' pool' v'.
         choose_scores to_int (dict_keys (abilities q)) q pool (v\<lparr>rng := g1\<rparr>) = (r, q', pool', v') \<longrightarrow>
           set_abilities to_int False q v = (r, q', v') \<and>
           (r = None \<longrightarrow>
              pool' = [] \<and> \<not> list_ex (\<lambda>x. x = 0) (dict_values (abilities q')) \<and>
              mset (dict_values (abilities q')) = mset pool)) \<and>
      (\<forall>vs. map to_int (stdin v) = map Some vs \<and> mset vs = mset pool \<longrightarrow>
         (\<exists>v'. choose_scores to_int (dict_keys (abilities q)) q pool (v\<lparr>rng := g1\<rparr>) =
                  (None, q\<lparr>abilities := zip (dict_keys (abilities q)) vs\<rparr>, [], v') \<and>
                stdin v' = [])))"
proof -
  have step: "(score \<notin> set scores \<longrightarrow>
         choose_score to_int ability p scores w =
           choose_score to_int ability p scores (print ''Invalid choice!'' w1)) \<and>
      (score \<in> set scores \<longrightarrow>
         choose_score to_int ability p scores w =
           choose_score to_int ability (p\<lparr>abilities := dict_set (abilities p) ability score\<rparr>)
             (remove1 score scores) w1 \<and>
         dict_get (dict_set (abilities p) ability score) ability = Some score \<and>
         mset (remove1 score scores) = mset scores - {#score#})"
    if "dict_get (abilities p) ability = Some 0" "ask_score ability scores w = (Inr line, w1)"
      "to_int line = Some score"
    using choose_score_invalid [where to_int = to_int, OF that] choose_score_valid [where to_int = to_int, OF that]
    by (simp add: dict_get_dict_set)
  have whole: "set_abilities to_int False q v = (r, q', v') \<and>
           (r = None \<longrightarrow>
              pool' = [] \<and> \<not> list_ex (\<lambda>x. x = 0) (dict_values (abilities q')) \<and>
              mset (dict_values (abilities q')) = mset pool)"
    if "abilities q = abilities Player" "generate_scores 6 (rng v) = (pool, g1)"
      "choose_scores to_int (dict_keys (abilities q)) q pool (v\<lparr>rng := g1\<rparr>) = (r, q', pool', v')"
    for r q' pool' v'
    using that unset_normal_return [OF that(1,2), of to_int q' pool' v']
    by (simp add: set_abilities_interactive [OF that(2)])
  have valid: "\<exists>v'. choose_scores to_int (dict_keys (abilities q)) q pool (v\<lparr>rng := g1\<rparr>) =
                  (None, q\<lparr>abilities := zip (dict_keys (abilities q)) vs\<rparr>, [], v') \<and>
                stdin v' = []"
    if "abilities q = abilities Player" "generate_scores 6 (rng v) = (pool, g1)"
      "map to_int (stdin v) = map Some vs" "mset vs = mset pool" for vs
    using that by (rule unset_valid_run)
  from step whole valid show ?thesis by blast
qed

theorem C8_interactive_selection_witness:
  "set_abilities (map_of [(''99'', 99), (''12'', 12), (''13'', 13),
        (''14'', 14), (''15'', 15)]) False Player
     \<lparr>rng = cycle [0, 1, 2, 3, 4, 5, 0],
        stdin = [''99'', ''13'', ''12'', ''12'', ''15'', ''14'', ''13''], stdout = []\<rparr> =
     (None,
      Player\<lparr>abilities :=
        [(''charisma'', 13), (''constitution'', 12), (''dexterity'', 12),
         (''intelligence'', 15), (''strength'', 14), (''wisdom'', 13)]\<rparr>,
      \<lparr>rng = cycle [4, 5, 0, 0, 1, 2, 3], stdin = [],
        stdout =
          [''Scores to choose from: [12, 13, 14, 15, 12, 13]\<newline>'',
           ''What should should we assign to charisma? '',
           ''Invalid choice!\<newline>'',
           ''Scores to choose from: [12, 13, 14, 15, 12, 13]\<newline>'',
           ''What should should we assign to charisma? '',
           ''Scores to choose from: [12, 14, 15, 12, 13]\<newline>'',
           ''What should should we assign to constitution? '',
           ''Scores to choose from: [14, 15, 12, 13]\<newline>'',
           ''What should should we assign to dexterity? '',
           ''Scores to choose from: [14, 15, 13]\<newline>'',
           ''What should should we assign to intelligence? '',
           ''Scores to choose from: [14, 13]\<newline>'',
           ''What should should we assign to strength? '',
           ''Scores to choose from: [13]\<newline>'',
           ''What should should we assign to wisdom? '']\<rparr>) \<and>
   mset [13, 12, 12, 15, 14, 13] = mset [12, 13, 14, 15, 12, 13 :: int] \<and>
   choose_score (map_of [(''99'', 99), (''12'', 12), (''13'', 13),
        (''14'', 14), (''15'', 15)]) ''charisma'' Player [12, 13, 14, 15, 12, 13]
     \<lparr>rng = cycle [4, 5, 0, 0, 1, 2, 3],
        stdin = [''99'', ''13'', ''12'', ''12'', ''15'', ''14'', ''13''], stdout = []\<rparr> =
   choose_score (map_of [(''99'', 99), (''12'', 12), (''13'', 13),
        (''14'', 14), (''15'', 15)]) ''charisma'' Player [12, 13, 14, 15, 12, 13]
     (print ''Invalid choice!''
       \<lparr>rng = cycle [4, 5, 0, 0, 1, 2, 3],
        stdin = [''13'', ''12'', ''12'', ''15'', ''14'', ''13''],
        stdout =
          [''Scores to choose from: [12, 13, 14, 15, 12, 13]\<newline>'',
           ''What should should we assign to charisma? '']\<rparr>) \<and>
   choose_score (map_of [(''99'', 99), (''12'', 12), (''13'', 13),
        (''14'', 14), (''15'', 15)]) ''charisma'' Player [12, 13, 14, 15, 12, 13]
     \<lparr>rng = cycle [4, 5, 0, 0, 1, 2, 3],
        stdin = [''13'', ''12'', ''12'', ''15'', ''14'', ''13''], stdout = []\<rparr> =
   choose_score (map_of [(''99'', 99), (''12'', 12), (''13'', 13),
        (''14'', 14), (''15'', 15)]) ''charisma'' (Player\<lparr>abilities := dict_set (abilities Player) ''charisma'' 13\<rparr>)
     (remove1 13 [12, 13, 14, 15, 12, 13])
     \<lparr>rng = cycle [4, 5, 0, 0, 1, 2, 3],
        stdin = [''12'', ''12'', ''15'', ''14'', ''13''],
        stdout =
          [''Scores to choose from: [12, 13, 14, 15, 12, 13]\<newline>'',
           ''What should should we assign to charisma? '']\<rparr> \<and>
   fst (choose_scores (map_of [(''99'', 99), (''12'', 12), (''13'', 13),
        (''14'', 14), (''15'', 15)]) (dict_keys (abilities Player)) Player [12, 13, 14, 15, 12, 13]
     \<lparr>rng = cycle [4, 5, 0, 0, 1, 2, 3],
        stdin = [''13'', ''12'', ''12'', ''15'', ''14'', ''13''], stdout = []\<rparr>) = None"
proof -
  let ?pool = "[12, 13, 14, 15, 12, 13] :: int list"
  let ?w = "\<lparr>rng = cycle [0, 1, 2, 3, 4, 5, 0],
        stdin = [''99'', ''13'', ''12'', ''12'', ''15'', ''14'', ''13''], stdout = []\<rparr>"
  let ?wg = "\<lparr>rng = cycle [4, 5, 0, 0, 1, 2, 3],
        stdin = [''99'', ''13'', ''12'', ''12'', ''15'', ''14'', ''13''], stdout = []\<rparr>"
  let ?wq = "\<lparr>rng = cycle [4, 5, 0, 0, 1, 2, 3],
        stdin = [''13'', ''12'', ''12'', ''15'', ''14'', ''13''],
        stdout =
          [''Scores to choose from: [12, 13, 14, 15, 12, 13]\<newline>'',
           ''What should should we assign to charisma? '']\<rparr>"
  let ?wz = "\<lparr>rng = cycle [4, 5, 0, 0, 1, 2, 3], stdin = [],
        stdout =
          [''Scores to choose from: [12, 13, 14, 15, 12, 13]\<newline>'',
           ''What should should we assign to charisma? '',
           ''Invalid choice!\<newline>'',
           ''Scores to choose from: [12, 13, 14, 15, 12, 13]\<newline>'',
           ''What should should we assign to charisma? '',
           ''Scores to choose from: [12, 14, 15, 12, 13]\<newline>'',
           ''What should should we assign to constitution? '',
           ''Scores to choose from: [14, 15, 12, 13]\<newline>'',
           ''What should should we assign to dexterity? '',
           ''Scores to choose from: [14, 15, 13]\<newline>'',
           ''What should should we assign to intelligence? '',
           ''Scores to choose from: [14, 13]\<newline>'',
           ''What should should we assign to strength? '',
           ''Scores to choose from: [13]\<newline>'',
           ''What should should we assign to wisdom? '']\<rparr>"
  let ?v = "\<lparr>rng = cycle [0, 1, 2, 3, 4, 5, 0],
        stdin = [''13'', ''12'', ''12'', ''15'', ''14'', ''13''], stdout = []\<rparr>"
  let ?vg = "\<lparr>rng = cycle [4, 5, 0, 0, 1, 2, 3],
        stdin = [''13'', ''12'', ''12'', ''15'', ''14'', ''13''], stdout = []\<rparr>"
  let ?vq = "\<lparr>rng = cycle [4, 5, 0, 0, 1, 2, 3],
        stdin = [''12'', ''12'', ''15'', ''14'', ''13''],
        stdout =
          [''Scores to choose from: [12, 13, 14, 15, 12, 13]\<newline>'',
           ''What should should we assign to charisma? '']\<rparr>"
  let ?pz = "Player\<lparr>abilities :=
        [(''charisma'', 13), (''constitution'', 12), (''dexterity'', 12),
         (''intelligence'', 15), (''strength'', 14), (''wisdom'', 13)]\<rparr>"
  note ev = Player_def dict_keys_def choose_score_set choose_score_step eval_io eval_str
  have z: "dict_get (abilities Player) ''charisma'' = Some 0" by (simp add: Player_def)
  have genw: "generate_scores 6 (rng ?w) = (?pool, cycle [4, 5, 0, 0, 1, 2, 3])"
    using generate_scores_example by simp
  have genv: "generate_scores 6 (rng ?v) = (?pool, cycle [4, 5, 0, 0, 1, 2, 3])"
    using generate_scores_example by simp
  have w0: "?w\<lparr>rng := cycle [4, 5, 0, 0, 1, 2, 3]\<rparr> = ?wg" and v0: "?v\<lparr>rng := cycle [4, 5, 0, 0, 1, 2, 3]\<rparr> = ?vg"
    by simp_all
  have ask99: "ask_score ''charisma'' ?pool ?wg = (Inr ''99'', ?wq)"
    by (simp add: eval_io eval_str)
  have ask13: "ask_score ''charisma'' ?pool ?vg = (Inr ''13'', ?vq)"
    by (simp add: eval_io eval_str)
  have int99: "(map_of [(''99'', 99), (''12'', 12), (''13'', 13),
        (''14'', 14), (''15'', 15)]) ''99'' = Some 99" and int13: "(map_of [(''99'', 99), (''12'', 12), (''13'', 13),
        (''14'', 14), (''15'', 15)]) ''13'' = Some 13"
    by (simp_all add: eval_str)
  have loop: "choose_scores (map_of [(''99'', 99), (''12'', 12), (''13'', 13),
        (''14'', 14), (''15'', 15)]) (dict_keys (abilities Player)) Player ?pool ?wg = (None, ?pz, [], ?wz)"
    by (simp add: ev del: cycle.simps)
  have answers: "map (map_of [(''99'', 99), (''12'', 12), (''13'', 13),
        (''14'', 14), (''15'', 15)]) (stdin ?v) = map Some [13, 12, 12, 15, 14, 13] \<and>
      mset [13, 12, 12, 15, 14, 13] = mset ?pool"
    by (simp add: eval_str)
  note at99 = C8_interactive_selection
    [of Player "''charisma''" ?pool ?wg "''99''" ?wq
       "map_of [(''99'', 99), (''12'', 12), (''13'', 13),
        (''14'', 14), (''15'', 15)]" 99 Player ?w ?pool "cycle [4, 5, 0, 0, 1, 2, 3]"]
  note at13 = C8_interactive_selection
    [of Player "''charisma''" ?pool ?vg "''13''" ?vq
       "map_of [(''99'', 99), (''12'', 12), (''13'', 13),
        (''14'', 14), (''15'', 15)]" 13 Player ?v ?pool "cycle [4, 5, 0, 0, 1, 2, 3]"]
  have invalid: "choose_score (map_of [(''99'', 99), (''12'', 12), (''13'', 13),
        (''14'', 14), (''15'', 15)]) ''charisma'' Player ?pool ?wg =
      choose_score (map_of [(''99'', 99), (''12'', 12), (''13'', 13),
        (''14'', 14), (''15'', 15)]) ''charisma'' Player ?pool (print ''Invalid choice!'' ?wq)"
    using at99 [THEN conjunct1, rule_format, OF conjI [OF z conjI [OF ask99 int99]],
                THEN conjunct1, rule_format]
    by simp
  have valid: "choose_score (map_of [(''99'', 99), (''12'', 12), (''13'', 13),
        (''14'', 14), (''15'', 15)]) ''charisma'' Player ?pool ?vg =
      choose_score (map_of [(''99'', 99), (''12'', 12), (''13'', 13),
        (''14'', 14), (''15'', 15)]) ''charisma'' (Player\<lparr>abilities := dict_set (abilities Player) ''charisma'' 13\<rparr>)
        (remove1 13 ?pool) ?vq"
    using at13 [THEN conjunct1, rule_format, OF conjI [OF z conjI [OF ask13 int13]],
                THEN conjunct2, rule_format, THEN conjunct1]
    by simp
  have whole: "set_abilities (map_of [(''99'', 99), (''12'', 12), (''13'', 13),
        (''14'', 14), (''15'', 15)]) False Player ?w = (None, ?pz, ?wz)"
    using at99 [THEN conjunct2, rule_format, OF conjI [OF refl genw],
                THEN conjunct1, rule_format, OF loop [folded w0], THEN conjunct1] .
  have six: "fst (choose_scores (map_of [(''99'', 99), (''12'', 12), (''13'', 13),
        (''14'', 14), (''15'', 15)]) (dict_keys (abilities Player)) Player ?pool ?vg) = None"
    using at13 [THEN conjunct2, rule_format, OF conjI [OF refl genv],
                THEN conjunct2, rule_format, OF answers]
    by (auto simp: v0)
  from whole invalid valid six answers show ?thesis by simp
qed

end
